theory Spec2Isabelle
  imports Main
begin

section \<open>Python values\<close>

text \<open>
  The exceptions a call into the module can raise: \<^verbatim>\<open>ValueError\<close>, from the
  constructor's own check and from the element tree library when it is handed a string
  that is not XML-compatible, and \<^verbatim>\<open>KeyError\<close>, from a dictionary subscript on a
  missing key. The specification calls them \<^verbatim>\<open>ConstructionError\<close> and
  \<^verbatim>\<open>MissingFieldError\<close>.
\<close>

datatype error = ValueError string | KeyError string

text \<open>
  A keyword parameter with a default: the caller leaves it out or passes a value.
  A value that may be Python's \<^verbatim>\<open>None\<close> is a \<^typ>\<open>string option\<close>.
\<close>

datatype 'a arg = Omitted | Given 'a

definition default :: "'a arg \<Rightarrow> 'a \<Rightarrow> 'a" where
  "default a d = (case a of Omitted \<Rightarrow> d | Given v \<Rightarrow> v)"

text \<open>A \<^verbatim>\<open>dict[str, str]\<close>; \<^verbatim>\<open>d[k]\<close> raises \<^verbatim>\<open>KeyError\<close> on a missing key.\<close>

type_synonym dict = "string \<rightharpoonup> string"

definition getitem :: "dict \<Rightarrow> string \<Rightarrow> error + string" where
  "getitem d k = (case d k of None \<Rightarrow> Inl (KeyError k) | Some v \<Rightarrow> Inr v)"

text \<open>Truth value of \<^verbatim>\<open>d.get(k, None)\<close>: \<^verbatim>\<open>None\<close> and the empty string are false.\<close>

definition truthy :: "string option \<Rightarrow> bool" where
  "truthy v = (case v of None \<Rightarrow> False | Some s \<Rightarrow> s \<noteq> [])"

section \<open>The element tree\<close>

text \<open>
  An \<^verbatim>\<open>lxml.etree\<close> element: its qualified tag, the namespace map it was created with,
  its attributes in insertion order, its text (\<^verbatim>\<open>None\<close> until assigned) and its children
  in document order.
\<close>

datatype etree_element =
  Element (el_tag: string) (el_nsmap: "(string \<times> string) list")
    (el_attrib: "(string \<times> string) list") (el_text: "string option")
    (el_children: "etree_element list")

text \<open>
  A Python reference to an element of a document is the list of child indices that
  leads to it from the root; the root is \<open>[]\<close>. Elements are only ever appended, so a
  reference keeps naming the same element.
\<close>

type_synonym ref = "nat list"

fun get_at :: "etree_element \<Rightarrow> ref \<Rightarrow> etree_element option" where
  "get_at e [] = Some e"
| "get_at e (i # r) =
     (if i < length (el_children e) then get_at (el_children e ! i) r else None)"

fun map_at :: "(etree_element \<Rightarrow> etree_element) \<Rightarrow> ref \<Rightarrow> etree_element \<Rightarrow> etree_element" where
  "map_at f [] e = f e"
| "map_at f (i # r) (Element t ns a x cs) =
     (if i < length cs then Element t ns a x (cs[i := map_at f r (cs ! i)])
      else Element t ns a x cs)"

fun add_child :: "etree_element \<Rightarrow> etree_element \<Rightarrow> etree_element" where
  "add_child c (Element t ns a x cs) = Element t ns a x (cs @ [c])"

fun add_children :: "etree_element list \<Rightarrow> etree_element \<Rightarrow> etree_element" where
  "add_children xs (Element t ns a x cs) = Element t ns a x (cs @ xs)"

fun put_text :: "string option \<Rightarrow> etree_element \<Rightarrow> etree_element" where
  "put_text v (Element t ns a x cs) = Element t ns a v cs"

definition children_at :: "etree_element \<Rightarrow> ref \<Rightarrow> etree_element list" where
  "children_at doc r = (case get_at doc r of None \<Rightarrow> [] | Some e \<Rightarrow> el_children e)"

text \<open>
  Statements run against the document and either return a value or raise; what was
  attached to the document before a raise stays attached.
\<close>

type_synonym 'a etree_op = "etree_element \<Rightarrow> (error + 'a) \<times> etree_element"

definition op_return :: "'a \<Rightarrow> 'a etree_op" where
  "op_return x doc = (Inr x, doc)"

definition op_eval :: "error + 'a \<Rightarrow> 'a etree_op" where
  "op_eval r doc = (r, doc)"

definition op_bind :: "'a etree_op \<Rightarrow> ('a \<Rightarrow> 'b etree_op) \<Rightarrow> 'b etree_op" where
  "op_bind m f doc =
     (case m doc of (Inl e, doc') \<Rightarrow> (Inl e, doc') | (Inr x, doc') \<Rightarrow> f x doc')"

text \<open>
  The library encodes every attribute value and every text it is handed and refuses a
  string that is not XML-compatible. A \<^verbatim>\<open>str\<close> is represented by its UTF-8 bytes, and
  the check is the library's own, byte by byte: below \<open>0x80\<close> only tab, line feed,
  carriage return and the bytes from \<open>0x20\<close> are allowed, and no three bytes may encode
  \<^verbatim>\<open>U+FFFE\<close>, \<^verbatim>\<open>U+FFFF\<close> or a surrogate. The tags and attribute names of this module
  are literals that the library accepts.
\<close>

definition xmlIsChar_ch :: "char \<Rightarrow> bool" where
  "xmlIsChar_ch c =
     (let n = (of_char c :: nat) in (9 \<le> n \<and> n \<le> 10) \<or> n = 13 \<or> 32 \<le> n)"

definition forbidden3 :: "char \<Rightarrow> char \<Rightarrow> char \<Rightarrow> bool" where
  "forbidden3 a b c =
     (let next3 = (of_char a :: nat) * 65536 + of_char b * 256 + of_char c
      in next3 = 0xEFBFBE \<or> next3 = 0xEFBFBF \<or> (0xEDA080 \<le> next3 \<and> next3 \<le> 0xEDBFBF))"

fun is_valid_xml_utf8 :: "string \<Rightarrow> bool" where
  "is_valid_xml_utf8 (a # b # c # s) =
     ((if 128 \<le> (of_char a :: nat) then \<not> forbidden3 a b c else xmlIsChar_ch a) \<and>
      is_valid_xml_utf8 (b # c # s))"
| "is_valid_xml_utf8 (a # s) =
     ((128 \<le> (of_char a :: nat) \<or> xmlIsChar_ch a) \<and> is_valid_xml_utf8 s)"
| "is_valid_xml_utf8 [] = True"

definition not_xml_compatible :: error where
  "not_xml_compatible =
     ValueError (''All strings must be XML compatible: Unicode or ASCII, '' @
                 ''no NULL bytes or control characters'')"

text \<open>A value that may be \<^verbatim>\<open>None\<close> is XML-compatible when it is \<^verbatim>\<open>None\<close> or a valid string.\<close>

definition xml_compatible :: "string option \<Rightarrow> bool" where
  "xml_compatible v = (case v of None \<Rightarrow> True | Some s \<Rightarrow> is_valid_xml_utf8 s)"

text \<open>
  \<^verbatim>\<open>etree.SubElement(parent, tag, attrib)\<close> creates an element, appends it to the
  parent's children, sets its attributes and returns a reference to it. When an
  attribute value is refused it removes the element again and raises, so the document
  is as before. A Python reference always names an element; a list of indices that
  names none leaves the document as it is here, and \<open>reachable_valid\<close> below shows that
  the object's reference never is one.
\<close>

definition SubElement :: "ref \<Rightarrow> string \<Rightarrow> (string \<times> string) list \<Rightarrow> ref etree_op" where
  "SubElement parent tag attrib doc =
     (if list_all (\<lambda>(name, value). is_valid_xml_utf8 value) attrib
      then (Inr (parent @ [length (children_at doc parent)]),
            map_at (add_child (Element tag [] attrib None [])) parent doc)
      else (Inl not_xml_compatible, doc))"

text \<open>
  The assignment \<^verbatim>\<open>element.text = value\<close> removes the text the element has and then
  stores the new one; when the value is refused it raises after the removal.
\<close>

definition set_text :: "ref \<Rightarrow> string option \<Rightarrow> unit etree_op" where
  "set_text r v doc =
     (case v of
        None \<Rightarrow> (Inr (), map_at (put_text None) r doc)
      | Some s \<Rightarrow>
          if is_valid_xml_utf8 s then (Inr (), map_at (put_text (Some s)) r doc)
          else (Inl not_xml_compatible, map_at (put_text None) r doc))"

section \<open>The module \<^verbatim>\<open>header.py\<close>\<close>

definition NS :: "(string \<times> string) list" where
  "NS =
    [(''query'', ''urn:oasis:names:tc:ebxml-regrep:xsd:query:4.0''),
     (''rs'', ''urn:oasis:names:tc:ebxml-regrep:xsd:rs:4.0''),
     (''rim'', ''urn:oasis:names:tc:ebxml-regrep:xsd:rim:4.0''),
     (''xsi'', ''http://www.w3.org/2001/XMLSchema-instance''),
     (''sdg'', ''http://data.europa.eu/sdg#''),
     (''s12'', ''http://www.w3.org/2003/05/soap-envelope''),
     (''eu'', ''http://eu.domibus.wsplugin/''),
     (''eb3'', ''http://docs.oasis-open.org/ebxml-msg/ebms/v3.0/ns/core/200704/'')]"

definition nsmap :: "string \<Rightarrow> string \<Rightarrow> error + string" where
  "nsmap ns tag =
     (case map_of NS ns of
        None \<Rightarrow> Inl (KeyError ns)
      | Some uri \<Rightarrow> Inr (''{'' @ uri @ ''}'' @ tag))"

text \<open>
  The random source behind \<^verbatim>\<open>uuid.uuid4()\<close>: each call takes the next value.
\<close>

record entropy =
  pool :: "nat \<Rightarrow> string"
  drawn :: nat

definition uuid4 :: "entropy \<Rightarrow> string \<times> entropy" where
  "uuid4 r = (pool r (drawn r), r\<lparr>drawn := Suc (drawn r)\<rparr>)"

text \<open>
  Executing the class body. The \<^verbatim>\<open>def __init__\<close> statement evaluates its default
  expressions when it runs, so \<^verbatim>\<open>str(uuid.uuid4())\<close> is computed here, once, and
  stored with the function.
\<close>

record Header_class =
  init_default_conversationid :: string

definition class_Header :: "entropy \<Rightarrow> Header_class \<times> entropy" where
  "class_Header r =
     (case uuid4 r of (u, r') \<Rightarrow> (\<lparr>init_default_conversationid = u\<rparr>, r'))"

text \<open>
  The attributes \<^verbatim>\<open>__init__\<close> sets before it calls \<^verbatim>\<open>__toxml\<close>; \<open>p_xml\<close> is
  \<^verbatim>\<open>self._xml\<close>, the document. The four party identifiers may be \<^verbatim>\<open>None\<close>; the other
  parameters are \<^verbatim>\<open>str\<close> as annotated.
\<close>

record Header_attrs =
  p_xml :: etree_element
  c1_party_id :: "string option"
  c1_party_id_type :: string
  c2_party_id :: "string option"
  c2_party_id_type :: string
  c3_party_id :: "string option"
  c3_party_id_type :: string
  c4_party_id :: "string option"
  c4_party_id_type :: string
  service :: string
  service_type :: string
  action :: string
  conversationid :: string
  role :: string

text \<open>The finished object adds \<^verbatim>\<open>self.pay_load_info\<close>, a reference into the document.\<close>

record Header = Header_attrs +
  pay_load_info :: ref

definition toxml :: "'a Header_attrs_scheme \<Rightarrow> ref etree_op" where
  "toxml self =
     op_bind (op_eval (nsmap ''eb3'' ''UserMessage'')) (\<lambda>t.
     op_bind (SubElement [] t []) (\<lambda>user_message.
     op_bind (op_eval (nsmap ''eb3'' ''PartyInfo'')) (\<lambda>t.
     op_bind (SubElement user_message t []) (\<lambda>party_info.
     op_bind (op_eval (nsmap ''eb3'' ''From'')) (\<lambda>t.
     op_bind (SubElement party_info t []) (\<lambda>froms.
     op_bind (op_eval (nsmap ''eb3'' ''PartyId'')) (\<lambda>t.
     op_bind (SubElement froms t [(''type'', c2_party_id_type self)]) (\<lambda>e.
     op_bind (set_text e (c2_party_id self)) (\<lambda>_.
     op_bind (op_eval (nsmap ''eb3'' ''Role'')) (\<lambda>t.
     op_bind (SubElement froms t []) (\<lambda>e.
     op_bind (set_text e (Some (role self))) (\<lambda>_.
     op_bind (op_eval (nsmap ''eb3'' ''To'')) (\<lambda>t.
     op_bind (SubElement party_info t []) (\<lambda>to.
     op_bind (op_eval (nsmap ''eb3'' ''PartyId'')) (\<lambda>t.
     op_bind (SubElement to t [(''type'', c3_party_id_type self)]) (\<lambda>e.
     op_bind (set_text e (c3_party_id self)) (\<lambda>_.
     op_bind (op_eval (nsmap ''eb3'' ''Role'')) (\<lambda>t.
     op_bind (SubElement to t []) (\<lambda>e.
     op_bind (set_text e (Some (role self))) (\<lambda>_.
     op_bind (op_eval (nsmap ''eb3'' ''CollaborationInfo'')) (\<lambda>t.
     op_bind (SubElement user_message t []) (\<lambda>collaboration_info.
     op_bind (op_eval (nsmap ''eb3'' ''Service'')) (\<lambda>t.
     op_bind (SubElement collaboration_info t
                [(''type'', ''urn:oasis:names:tc:ebcore:ebrs:ebms:binding:1.0'')]) (\<lambda>e.
     op_bind (set_text e (Some (service self))) (\<lambda>_.
     op_bind (op_eval (nsmap ''eb3'' ''Action'')) (\<lambda>t.
     op_bind (SubElement collaboration_info t []) (\<lambda>e.
     op_bind (set_text e (Some (action self))) (\<lambda>_.
     op_bind (op_eval (nsmap ''eb3'' ''ConversationId'')) (\<lambda>t.
     op_bind (SubElement collaboration_info t []) (\<lambda>e.
     op_bind (set_text e (Some (conversationid self))) (\<lambda>_.
     op_bind (op_eval (nsmap ''eb3'' ''MessageProperties'')) (\<lambda>t.
     op_bind (SubElement user_message t []) (\<lambda>message_proportis.
     op_bind (op_eval (nsmap ''eb3'' ''Property'')) (\<lambda>t.
     op_bind (SubElement message_proportis t
                [(''name'', ''originalSender''), (''type'', c1_party_id_type self)]) (\<lambda>e.
     op_bind (set_text e (c1_party_id self)) (\<lambda>_.
     op_bind (op_eval (nsmap ''eb3'' ''Property'')) (\<lambda>t.
     op_bind (SubElement message_proportis t
                [(''name'', ''finalRecipient''), (''type'', c4_party_id_type self)]) (\<lambda>e.
     op_bind (set_text e (c4_party_id self)) (\<lambda>_.
     op_bind (op_eval (nsmap ''eb3'' ''PayloadInfo'')) (\<lambda>t.
     op_bind (SubElement user_message t []) (\<lambda>pay_load_info.
     op_return pay_load_info)))))))))))))))))))))))))))))))))))))))))"

definition Header_init ::
  "Header_class \<Rightarrow> string option \<Rightarrow> string \<Rightarrow> string option \<Rightarrow> string \<Rightarrow>
   string option \<Rightarrow> string \<Rightarrow> string option \<Rightarrow> string \<Rightarrow>
   string arg \<Rightarrow> string arg \<Rightarrow> string arg \<Rightarrow> string arg \<Rightarrow> string arg \<Rightarrow> error + Header" where
  "Header_init cls c1_id c1_type c2_id c2_type c3_id c3_type c4_id c4_type
       conversationid_arg service_arg service_type_arg action_arg role_arg =
     (if None \<in> set [c1_id, c2_id, c3_id, c4_id]
      then Inl (ValueError ''Parameters must not be None'')
      else
        (case nsmap ''eb3'' ''Messaging'' of
           Inl e \<Rightarrow> Inl e
         | Inr t \<Rightarrow>
            let self = \<lparr>p_xml = Element t NS [] None [],
                        c1_party_id = c1_id, c1_party_id_type = c1_type,
                        c2_party_id = c2_id, c2_party_id_type = c2_type,
                        c3_party_id = c3_id, c3_party_id_type = c3_type,
                        c4_party_id = c4_id, c4_party_id_type = c4_type,
                        service = default service_arg
                          ''http://docs.oasis-open.org/ebxml-msg/as4/200902/service'',
                        service_type = default service_type_arg
                          ''urn:oasis:names:tc:ebcore:ebrs:ebms:binding:1.0'',
                        action = default action_arg
                          ''http://docs.oasis-open.org/ebxml-msg/as4/200902/action'',
                        conversationid = default conversationid_arg
                          (init_default_conversationid cls),
                        role = default role_arg ''http://sdg.europa.eu/edelivery/gateway''\<rparr>
            in (case toxml self (p_xml self) of
                  (Inl e, doc) \<Rightarrow> Inl e
                | (Inr r, doc) \<Rightarrow>
                    Inr (Header_attrs.extend (self\<lparr>p_xml := doc\<rparr>) (Header.fields r)))))"

text \<open>
  The body of the \<^verbatim>\<open>for\<close> loop of \<^verbatim>\<open>payload_append\<close>. Arguments are evaluated left
  to right before a call, and the right-hand side of an assignment before its target:
  \<^verbatim>\<open>payload['href']\<close> is read before the \<^verbatim>\<open>PartInfo\<close> element is created, and
  \<^verbatim>\<open>payload['mimetype']\<close> after \<^verbatim>\<open>PartInfo\<close> and \<^verbatim>\<open>PartProperties\<close> are attached but
  before the \<^verbatim>\<open>Property\<close> element is created.
\<close>

definition payload_append_body :: "ref \<Rightarrow> dict \<Rightarrow> unit etree_op" where
  "payload_append_body pli payload =
     op_bind (op_eval (nsmap ''eb3'' ''PartInfo'')) (\<lambda>t.
     op_bind (op_eval (getitem payload ''href'')) (\<lambda>href.
     op_bind (SubElement pli t [(''href'', href)]) (\<lambda>pl.
     op_bind (op_eval (nsmap ''eb3'' ''PartProperties'')) (\<lambda>t.
     op_bind (SubElement pl t []) (\<lambda>pp.
     op_bind (op_eval (getitem payload ''mimetype'')) (\<lambda>mimetype.
     op_bind (op_eval (nsmap ''eb3'' ''Property'')) (\<lambda>t.
     op_bind (SubElement pp t [(''name'', ''MimeType'')]) (\<lambda>e.
     op_bind (set_text e (Some mimetype)) (\<lambda>_.
     if truthy (payload ''CompressionType'') then
       op_bind (op_eval (getitem payload ''CompressionType'')) (\<lambda>compression.
       op_bind (op_eval (nsmap ''eb3'' ''Property'')) (\<lambda>t.
       op_bind (SubElement pp t [(''name'', ''CompressionType'')]) (\<lambda>e.
       set_text e (Some compression))))
     else op_return ())))))))))"

fun payload_append_loop :: "ref \<Rightarrow> dict list \<Rightarrow> unit etree_op" where
  "payload_append_loop pli [] = op_return ()"
| "payload_append_loop pli (payload # payloads) =
     op_bind (payload_append_body pli payload) (\<lambda>_. payload_append_loop pli payloads)"

text \<open>
  \<^verbatim>\<open>payload_append\<close> returns \<^verbatim>\<open>None\<close> or raises; either way the object keeps the
  document as the loop left it.
\<close>

definition payload_append :: "Header \<Rightarrow> dict list \<Rightarrow> (error + unit) \<times> Header" where
  "payload_append self payloads =
     (case payload_append_loop (pay_load_info self) payloads (p_xml self) of
        (r, doc) \<Rightarrow> (r, self\<lparr>p_xml := doc\<rparr>))"

definition element :: "Header \<Rightarrow> etree_element" where
  "element self = p_xml self"

text \<open>
  The property \<^verbatim>\<open>xml\<close> hands the root to the library's serialiser with
  \<^verbatim>\<open>pretty_print=True\<close>. The serialiser is a parameter: a function of the tree and the
  flag. The object is returned next to the bytes so that consecutive calls can be
  chained.
\<close>

definition xml :: "(etree_element \<Rightarrow> bool \<Rightarrow> string) \<Rightarrow> Header \<Rightarrow> string \<times> Header" where
  "xml tostring self = (tostring (element self) True, self)"

text \<open>
  The objects a program can hold: what the constructor returned, after any number of
  calls of the exposed operations, failed calls included.
\<close>

inductive reachable :: "Header \<Rightarrow> bool" where
  constructed:
    "Header_init cls c1 t1 c2 t2 c3 t3 c4 t4 cv sv st ac ro = Inr h \<Longrightarrow> reachable h"
| appended:
    "reachable h \<Longrightarrow> payload_append h payloads = (r, h') \<Longrightarrow> reachable h'"
| serialised:
    "reachable h \<Longrightarrow> xml tostring h = (b, h') \<Longrightarrow> reachable h'"

definition PayloadInfo_children :: "Header \<Rightarrow> etree_element list" where
  "PayloadInfo_children self = children_at (p_xml self) (pay_load_info self)"

section \<open>The shapes the specification describes\<close>

definition eb3 :: "string \<Rightarrow> string" where
  "eb3 name = ''{http://docs.oasis-open.org/ebxml-msg/ebms/v3.0/ns/core/200704/}'' @ name"

text \<open>
  The header tree in document order, as the specification lists it, filled with the
  party pairs, the conversation id and the service, action and role strings, and with
  \<open>parts\<close> as the children of \<^verbatim>\<open>PayloadInfo\<close>.
\<close>

definition Messaging_shape ::
  "string option \<Rightarrow> string \<Rightarrow> string option \<Rightarrow> string \<Rightarrow> string option \<Rightarrow> string \<Rightarrow>
   string option \<Rightarrow> string \<Rightarrow> string \<Rightarrow> string \<Rightarrow> string \<Rightarrow> string \<Rightarrow>
   etree_element list \<Rightarrow> etree_element" where
  "Messaging_shape id1 type1 id2 type2 id3 type3 id4 type4 conv srv act rol parts =
     Element (eb3 ''Messaging'') NS [] None
      [Element (eb3 ''UserMessage'') [] [] None
        [Element (eb3 ''PartyInfo'') [] [] None
          [Element (eb3 ''From'') [] [] None
            [Element (eb3 ''PartyId'') [] [(''type'', type2)] id2 [],
             Element (eb3 ''Role'') [] [] (Some rol) []],
           Element (eb3 ''To'') [] [] None
            [Element (eb3 ''PartyId'') [] [(''type'', type3)] id3 [],
             Element (eb3 ''Role'') [] [] (Some rol) []]],
         Element (eb3 ''CollaborationInfo'') [] [] None
          [Element (eb3 ''Service'') []
             [(''type'', ''urn:oasis:names:tc:ebcore:ebrs:ebms:binding:1.0'')] (Some srv) [],
           Element (eb3 ''Action'') [] [] (Some act) [],
           Element (eb3 ''ConversationId'') [] [] (Some conv) []],
         Element (eb3 ''MessageProperties'') [] [] None
          [Element (eb3 ''Property'') []
             [(''name'', ''originalSender''), (''type'', type1)] id1 [],
           Element (eb3 ''Property'') []
             [(''name'', ''finalRecipient''), (''type'', type4)] id4 []],
         Element (eb3 ''PayloadInfo'') [] [] None parts]]"

text \<open>
  The \<^verbatim>\<open>PartInfo\<close> element of one payload: the \<^verbatim>\<open>href\<close> attribute, one
  \<^verbatim>\<open>PartProperties\<close> child holding the \<^verbatim>\<open>MimeType\<close> property and, when the compression
  type is present and not empty, the \<^verbatim>\<open>CompressionType\<close> property after it.
\<close>

definition PartInfo_shape :: "string \<Rightarrow> string \<Rightarrow> string option \<Rightarrow> etree_element" where
  "PartInfo_shape href mimetype compression =
     Element (eb3 ''PartInfo'') [] [(''href'', href)] None
      [Element (eb3 ''PartProperties'') [] [] None
        (Element (eb3 ''Property'') [] [(''name'', ''MimeType'')] (Some mimetype) [] #
         (case compression of
            None \<Rightarrow> []
          | Some c \<Rightarrow>
              if c = [] then []
              else [Element (eb3 ''Property'') [] [(''name'', ''CompressionType'')]
                      (Some c) []]))]"

definition PartInfo_of :: "dict \<Rightarrow> etree_element" where
  "PartInfo_of payload =
     PartInfo_shape (the (payload ''href'')) (the (payload ''mimetype''))
       (payload ''CompressionType'')"

text \<open>
  What a payload with \<^verbatim>\<open>href\<close> and without \<^verbatim>\<open>mimetype\<close> leaves behind: its
  \<^verbatim>\<open>PartInfo\<close> with an empty \<^verbatim>\<open>PartProperties\<close>.
\<close>

definition PartInfo_stub :: "string \<Rightarrow> etree_element" where
  "PartInfo_stub href =
     Element (eb3 ''PartInfo'') [] [(''href'', href)] None
      [Element (eb3 ''PartProperties'') [] [] None []]"

text \<open>
  What a payload leaves behind when the library refuses its \<^verbatim>\<open>mimetype\<close>, and when it
  refuses its \<^verbatim>\<open>CompressionType\<close>: the property that was being filled is attached
  without text.
\<close>

definition PartInfo_no_mimetype :: "string \<Rightarrow> etree_element" where
  "PartInfo_no_mimetype href =
     Element (eb3 ''PartInfo'') [] [(''href'', href)] None
      [Element (eb3 ''PartProperties'') [] [] None
        [Element (eb3 ''Property'') [] [(''name'', ''MimeType'')] None []]]"

definition PartInfo_no_compression :: "string \<Rightarrow> string \<Rightarrow> etree_element" where
  "PartInfo_no_compression href mimetype =
     Element (eb3 ''PartInfo'') [] [(''href'', href)] None
      [Element (eb3 ''PartProperties'') [] [] None
        [Element (eb3 ''Property'') [] [(''name'', ''MimeType'')] (Some mimetype) [],
         Element (eb3 ''Property'') [] [(''name'', ''CompressionType'')] None []]]"

text \<open>
  The strings the constructor hands to the tree: the four identifiers, their types, and
  the conversation id, service, action and role after defaulting. The
  \<^verbatim>\<open>service_type\<close> is not among them.
\<close>

definition init_strings_ok ::
  "Header_class \<Rightarrow> string option \<Rightarrow> string \<Rightarrow> string option \<Rightarrow> string \<Rightarrow>
   string option \<Rightarrow> string \<Rightarrow> string option \<Rightarrow> string \<Rightarrow>
   string arg \<Rightarrow> string arg \<Rightarrow> string arg \<Rightarrow> string arg \<Rightarrow> bool" where
  "init_strings_ok cls c1 t1 c2 t2 c3 t3 c4 t4 cv sv ac ro \<longleftrightarrow>
     xml_compatible c1 \<and> is_valid_xml_utf8 t1 \<and>
     xml_compatible c2 \<and> is_valid_xml_utf8 t2 \<and>
     xml_compatible c3 \<and> is_valid_xml_utf8 t3 \<and>
     xml_compatible c4 \<and> is_valid_xml_utf8 t4 \<and>
     is_valid_xml_utf8 (default cv (init_default_conversationid cls)) \<and>
     is_valid_xml_utf8
       (default sv ''http://docs.oasis-open.org/ebxml-msg/as4/200902/service'') \<and>
     is_valid_xml_utf8
       (default ac ''http://docs.oasis-open.org/ebxml-msg/as4/200902/action'') \<and>
     is_valid_xml_utf8 (default ro ''http://sdg.europa.eu/edelivery/gateway'')"

text \<open>
  A payload map the loop body gets through: both required keys, and the values it
  hands to the tree XML-compatible.
\<close>

definition payload_ok :: "dict \<Rightarrow> bool" where
  "payload_ok p \<longleftrightarrow>
     ''href'' \<in> dom p \<and> ''mimetype'' \<in> dom p \<and>
     xml_compatible (p ''href'') \<and> xml_compatible (p ''mimetype'') \<and>
     xml_compatible (p ''CompressionType'')"

text \<open>
  The invariant of the object: \<^verbatim>\<open>pay_load_info\<close> refers to the fourth child of
  \<^verbatim>\<open>UserMessage\<close>, and the document is the fixed tree filled with the object's own
  attributes, with \<open>parts\<close> under \<^verbatim>\<open>PayloadInfo\<close>.
\<close>

definition shaped :: "Header \<Rightarrow> etree_element list \<Rightarrow> bool" where
  "shaped h parts \<longleftrightarrow>
     pay_load_info h = [0, 3] \<and>
     p_xml h =
       Messaging_shape (c1_party_id h) (c1_party_id_type h) (c2_party_id h)
         (c2_party_id_type h) (c3_party_id h) (c3_party_id_type h) (c4_party_id h)
         (c4_party_id_type h) (conversationid h) (service h) (action h) (role h) parts"

section \<open>Running the statements\<close>

lemma printable_valid:
  "\<forall>c\<in>set s. 32 \<le> (of_char c :: nat) \<and> (of_char c :: nat) < 128 \<Longrightarrow> is_valid_xml_utf8 s"
  by (induction s rule: is_valid_xml_utf8.induct) (auto simp: xmlIsChar_ch_def)

lemma nsmap_eb3: "nsmap ''eb3'' tag = Inr (eb3 tag)"
  by (simp add: nsmap_def NS_def eb3_def)

lemma get_at_append:
  "get_at d (p @ q) = (case get_at d p of None \<Rightarrow> None | Some e \<Rightarrow> get_at e q)"
  by (induction p arbitrary: d) auto

lemma map_at_append: "map_at f (p @ q) d = map_at (map_at f q) p d"
proof (induction p arbitrary: d)
  case Nil then show ?case by simp
next
  case (Cons i p) then show ?case by (cases d) simp
qed

lemma get_at_map_at: "get_at d p = Some e \<Longrightarrow> get_at (map_at f p d) p = Some (f e)"
proof (induction p arbitrary: d)
  case Nil then show ?case by simp
next
  case (Cons i p) then show ?case by (cases d) (auto split: if_splits)
qed

lemma map_at_map_at: "map_at f p (map_at g p d) = map_at (f \<circ> g) p d"
proof (induction p arbitrary: d)
  case Nil then show ?case by simp
next
  case (Cons i p) then show ?case by (cases d) simp
qed

lemma map_at_cong: "get_at d p = Some e \<Longrightarrow> f e = g e \<Longrightarrow> map_at f p d = map_at g p d"
proof (induction p arbitrary: d)
  case Nil then show ?case by simp
next
  case (Cons i p) then show ?case by (cases d) (auto split: if_splits)
qed

lemma bind_eval_Inr: "op_bind (op_eval (Inr x)) f doc = f x doc"
  by (simp add: op_bind_def op_eval_def)

lemma bind_eval_Inl: "op_bind (op_eval (Inl e)) f doc = (Inl e, doc)"
  by (simp add: op_bind_def op_eval_def)

lemma bind_SubElement:
  "op_bind (SubElement p t a) f doc =
     (if list_all (\<lambda>(name, value). is_valid_xml_utf8 value) a
      then f (p @ [length (children_at doc p)])
             (map_at (add_child (Element t [] a None [])) p doc)
      else (Inl not_xml_compatible, doc))"
  by (simp add: op_bind_def SubElement_def)

lemma bind_set_text:
  "op_bind (set_text r v) f doc =
     (if xml_compatible v then f () (map_at (put_text v) r doc)
      else (Inl not_xml_compatible, map_at (put_text None) r doc))"
  by (cases v) (simp_all add: op_bind_def set_text_def xml_compatible_def)

lemma xml_compatible_simps:
  "xml_compatible None" "xml_compatible (Some s) = is_valid_xml_utf8 s"
  by (simp_all add: xml_compatible_def)

lemmas run = bind_eval_Inr bind_eval_Inl bind_SubElement bind_set_text op_return_def
  nsmap_eb3 children_at_def xml_compatible_simps xmlIsChar_ch_def

lemma toxml_fresh:
  assumes "xml_compatible (c1_party_id self)" "is_valid_xml_utf8 (c1_party_id_type self)"
    "xml_compatible (c2_party_id self)" "is_valid_xml_utf8 (c2_party_id_type self)"
    "xml_compatible (c3_party_id self)" "is_valid_xml_utf8 (c3_party_id_type self)"
    "xml_compatible (c4_party_id self)" "is_valid_xml_utf8 (c4_party_id_type self)"
    "is_valid_xml_utf8 (conversationid self)" "is_valid_xml_utf8 (service self)"
    "is_valid_xml_utf8 (action self)" "is_valid_xml_utf8 (role self)"
  shows "toxml self (Element (eb3 ''Messaging'') NS [] None []) =
     (Inr [0, 3],
      Messaging_shape (c1_party_id self) (c1_party_id_type self) (c2_party_id self)
        (c2_party_id_type self) (c3_party_id self) (c3_party_id_type self)
        (c4_party_id self) (c4_party_id_type self) (conversationid self) (service self)
        (action self) (role self) [])"
  using assms by (simp add: toxml_def run Messaging_shape_def)

lemma toxml_refused:
  assumes "\<not> (xml_compatible (c1_party_id self) \<and> is_valid_xml_utf8 (c1_party_id_type self) \<and>
    xml_compatible (c2_party_id self) \<and> is_valid_xml_utf8 (c2_party_id_type self) \<and>
    xml_compatible (c3_party_id self) \<and> is_valid_xml_utf8 (c3_party_id_type self) \<and>
    xml_compatible (c4_party_id self) \<and> is_valid_xml_utf8 (c4_party_id_type self) \<and>
    is_valid_xml_utf8 (conversationid self) \<and> is_valid_xml_utf8 (service self) \<and>
    is_valid_xml_utf8 (action self) \<and> is_valid_xml_utf8 (role self))"
  shows "fst (toxml self (Element t ns [] None [])) = Inl not_xml_compatible"
  using assms by (auto simp: toxml_def run split: if_splits)


lemma toxml_case:
  "(case toxml self (Element (eb3 ''Messaging'') NS [] None []) of
      (Inl e, doc) \<Rightarrow> A e doc
    | (Inr r, doc) \<Rightarrow> B r doc) =
   (if xml_compatible (c1_party_id self) \<and> is_valid_xml_utf8 (c1_party_id_type self) \<and>
       xml_compatible (c2_party_id self) \<and> is_valid_xml_utf8 (c2_party_id_type self) \<and>
       xml_compatible (c3_party_id self) \<and> is_valid_xml_utf8 (c3_party_id_type self) \<and>
       xml_compatible (c4_party_id self) \<and> is_valid_xml_utf8 (c4_party_id_type self) \<and>
       is_valid_xml_utf8 (conversationid self) \<and> is_valid_xml_utf8 (service self) \<and>
       is_valid_xml_utf8 (action self) \<and> is_valid_xml_utf8 (role self)
    then B [0, 3]
           (Messaging_shape (c1_party_id self) (c1_party_id_type self) (c2_party_id self)
             (c2_party_id_type self) (c3_party_id self) (c3_party_id_type self)
             (c4_party_id self) (c4_party_id_type self) (conversationid self) (service self)
             (action self) (role self) [])
    else A not_xml_compatible
           (snd (toxml self (Element (eb3 ''Messaging'') NS [] None []))))"
  (is "?lhs = (if ?ok then _ else _)")
proof (cases ?ok)
  case True
  then show ?thesis by (simp add: toxml_fresh)
next
  case False
  then have "fst (toxml self (Element (eb3 ''Messaging'') NS [] None [])) =
      Inl not_xml_compatible"
    by (rule toxml_refused)
  then obtain doc where
    "toxml self (Element (eb3 ''Messaging'') NS [] None []) = (Inl not_xml_compatible, doc)"
    by (cases "toxml self (Element (eb3 ''Messaging'') NS [] None [])") simp
  then show ?thesis unfolding if_not_P[OF False] by simp
qed

lemma Header_init_eq:
  "Header_init cls c1 t1 c2 t2 c3 t3 c4 t4 cv sv st ac ro =
     (if c1 = None \<or> c2 = None \<or> c3 = None \<or> c4 = None
      then Inl (ValueError ''Parameters must not be None'')
      else if init_strings_ok cls c1 t1 c2 t2 c3 t3 c4 t4 cv sv ac ro
      then Inr \<lparr>p_xml =
                  Messaging_shape c1 t1 c2 t2 c3 t3 c4 t4
                    (default cv (init_default_conversationid cls))
                    (default sv ''http://docs.oasis-open.org/ebxml-msg/as4/200902/service'')
                    (default ac ''http://docs.oasis-open.org/ebxml-msg/as4/200902/action'')
                    (default ro ''http://sdg.europa.eu/edelivery/gateway'') [],
                c1_party_id = c1, c1_party_id_type = t1,
                c2_party_id = c2, c2_party_id_type = t2,
                c3_party_id = c3, c3_party_id_type = t3,
                c4_party_id = c4, c4_party_id_type = t4,
                service = default sv ''http://docs.oasis-open.org/ebxml-msg/as4/200902/service'',
                service_type = default st ''urn:oasis:names:tc:ebcore:ebrs:ebms:binding:1.0'',
                action = default ac ''http://docs.oasis-open.org/ebxml-msg/as4/200902/action'',
                conversationid = default cv (init_default_conversationid cls),
                role = default ro ''http://sdg.europa.eu/edelivery/gateway'',
                pay_load_info = [0, 3]\<rparr>
      else Inl not_xml_compatible)"
  by (auto simp: Header_init_def nsmap_eb3 toxml_case init_strings_ok_def
      Header_attrs.defs Header.defs)


lemma add_children_append: "add_children ys (add_children xs e) = add_children (xs @ ys) e"
  by (cases e) simp

lemma map_at_add_add:
  "map_at (add_children ys) pli (map_at (add_children xs) pli doc) =
   map_at (add_children (xs @ ys)) pli doc"
  by (simp add: map_at_map_at comp_def add_children_append)

lemma map_at_add_Nil: "map_at (add_children []) pli doc = doc"
proof (induction pli arbitrary: doc)
  case Nil then show ?case by (cases doc) simp
next
  case (Cons i p) then show ?case by (cases doc) simp
qed

lemmas body_run = payload_append_body_def run set_text_def SubElement_def getitem_def
  truthy_def get_at_append map_at_append map_at_map_at get_at_map_at

lemma body_ok:
  assumes "get_at doc pli = Some e" and "payload_ok payload"
  shows "payload_append_body pli payload doc =
           (Inr (), map_at (add_children [PartInfo_of payload]) pli doc)"
proof -
  obtain t ns a x cs where e: "e = Element t ns a x cs" by (cases e)
  from assms(2) obtain h m where "payload ''href'' = Some h" "payload ''mimetype'' = Some m"
    "is_valid_xml_utf8 h" "is_valid_xml_utf8 m" "xml_compatible (payload ''CompressionType'')"
    by (auto simp: payload_ok_def xml_compatible_def)
  with assms(1) show ?thesis
    by (auto simp: body_run e PartInfo_of_def PartInfo_shape_def
        split: option.splits intro!: map_at_cong[where e = e])
qed

lemma body_no_href:
  "payload ''href'' = None \<Longrightarrow>
   payload_append_body pli payload doc = (Inl (KeyError ''href''), doc)"
  by (simp add: payload_append_body_def run getitem_def)

lemma body_bad_href:
  "payload ''href'' = Some h \<Longrightarrow> \<not> is_valid_xml_utf8 h \<Longrightarrow>
   payload_append_body pli payload doc = (Inl not_xml_compatible, doc)"
  by (simp add: payload_append_body_def run getitem_def)

lemma body_no_mimetype:
  assumes "get_at doc pli = Some e" "payload ''href'' = Some h" "is_valid_xml_utf8 h"
    and "payload ''mimetype'' = None"
  shows "payload_append_body pli payload doc =
           (Inl (KeyError ''mimetype''), map_at (add_children [PartInfo_stub h]) pli doc)"
proof -
  obtain t ns a x cs where e: "e = Element t ns a x cs" by (cases e)
  show ?thesis
    using assms
    by (auto simp: body_run e PartInfo_stub_def intro!: map_at_cong[where e = e])
qed

lemma body_bad_mimetype:
  assumes "get_at doc pli = Some e" "payload ''href'' = Some h" "is_valid_xml_utf8 h"
    and "payload ''mimetype'' = Some m" "\<not> is_valid_xml_utf8 m"
  shows "payload_append_body pli payload doc =
           (Inl not_xml_compatible, map_at (add_children [PartInfo_no_mimetype h]) pli doc)"
proof -
  obtain t ns a x cs where e: "e = Element t ns a x cs" by (cases e)
  show ?thesis
    using assms
    by (auto simp: body_run e PartInfo_no_mimetype_def intro!: map_at_cong[where e = e])
qed

lemma body_bad_compression:
  assumes "get_at doc pli = Some e" "payload ''href'' = Some h" "is_valid_xml_utf8 h"
    and "payload ''mimetype'' = Some m" "is_valid_xml_utf8 m"
    and "payload ''CompressionType'' = Some c" "\<not> is_valid_xml_utf8 c"
  shows "payload_append_body pli payload doc =
           (Inl not_xml_compatible,
            map_at (add_children [PartInfo_no_compression h m]) pli doc)"
proof -
  obtain t ns a x cs where e: "e = Element t ns a x cs" by (cases e)
  from assms(7) have "c \<noteq> []" by auto
  with assms show ?thesis
    by (auto simp: body_run e PartInfo_no_compression_def intro!: map_at_cong[where e = e])
qed

text \<open>
  Whatever the payload, the body appends at most one element under the node it is
  given, and it raises when a required key is missing.
\<close>

lemma body_frame:
  assumes "get_at doc pli = Some e"
  shows "\<exists>xs. snd (payload_append_body pli p doc) = map_at (add_children xs) pli doc \<and>
              length xs \<le> 1 \<and>
              (p ''href'' = None \<or> p ''mimetype'' = None \<longrightarrow>
                 isl (fst (payload_append_body pli p doc)))"
proof (cases "p ''href''")
  case None
  then have "snd (payload_append_body pli p doc) = map_at (add_children []) pli doc"
    "isl (fst (payload_append_body pli p doc))"
    by (simp_all add: body_no_href map_at_add_Nil)
  then show ?thesis by (intro exI[of _ "[]"]) simp
next
  case (Some h)
  note href = this
  show ?thesis
  proof (cases "is_valid_xml_utf8 h")
    case False
    with href have "snd (payload_append_body pli p doc) = map_at (add_children []) pli doc"
      "isl (fst (payload_append_body pli p doc))"
      by (simp_all add: body_bad_href map_at_add_Nil)
    then show ?thesis by (intro exI[of _ "[]"]) simp
  next
    case True
    note okh = this
    show ?thesis
    proof (cases "p ''mimetype''")
      case None
      from body_no_mimetype[OF assms href okh None]
      show ?thesis by (intro exI[of _ "[PartInfo_stub h]"]) simp
    next
      case (Some m)
      note mime = this
      show ?thesis
      proof (cases "is_valid_xml_utf8 m")
        case False
        from body_bad_mimetype[OF assms href okh mime False] href mime
        show ?thesis by (intro exI[of _ "[PartInfo_no_mimetype h]"]) simp
      next
        case True
        note okm = this
        show ?thesis
        proof (cases "xml_compatible (p ''CompressionType'')")
          case True
          with href okh mime okm have "payload_ok p"
            by (simp add: payload_ok_def dom_def xml_compatible_def)
          from body_ok[OF assms this] href mime
          show ?thesis by (intro exI[of _ "[PartInfo_of p]"]) simp
        next
          case False
          then obtain c where c: "p ''CompressionType'' = Some c" "\<not> is_valid_xml_utf8 c"
            by (auto simp: xml_compatible_def split: option.splits)
          from body_bad_compression[OF assms href okh mime okm c] href mime
          show ?thesis by (intro exI[of _ "[PartInfo_no_compression h m]"]) simp
        qed
      qed
    qed
  qed
qed


lemma loop_Cons_ok:
  "payload_append_body pli p doc = (Inr (), doc') \<Longrightarrow>
   payload_append_loop pli (p # ps) doc = payload_append_loop pli ps doc'"
  by (simp add: op_bind_def)

lemma loop_Cons_fail:
  "payload_append_body pli p doc = (Inl err, doc') \<Longrightarrow>
   payload_append_loop pli (p # ps) doc = (Inl err, doc')"
  by (simp add: op_bind_def)

lemma loop_prefix:
  assumes "get_at doc pli = Some e" and "\<forall>p\<in>set pre. payload_ok p"
  shows "payload_append_loop pli (pre @ rest) doc =
           payload_append_loop pli rest (map_at (add_children (map PartInfo_of pre)) pli doc)"
  using assms
proof (induction pre arbitrary: doc e)
  case Nil
  then show ?case by (simp add: map_at_add_Nil)
next
  case (Cons p pre)
  let ?doc = "map_at (add_children [PartInfo_of p]) pli doc"
  have step: "payload_append_body pli p doc = (Inr (), ?doc)"
    using Cons.prems by (intro body_ok) auto
  have valid: "get_at ?doc pli = Some (add_children [PartInfo_of p] e)"
    using Cons.prems(1) by (rule get_at_map_at)
  have "payload_append_loop pli ((p # pre) @ rest) doc = payload_append_loop pli (pre @ rest) ?doc"
    unfolding append_Cons using step by (rule loop_Cons_ok)
  also have "\<dots> = payload_append_loop pli rest (map_at (add_children (map PartInfo_of pre)) pli ?doc)"
    using valid Cons.prems(2) by (intro Cons.IH) auto
  finally show ?case by (simp add: map_at_add_add)
qed

lemma loop_ok:
  assumes "get_at doc pli = Some e" and "\<forall>p\<in>set ps. payload_ok p"
  shows "payload_append_loop pli ps doc =
           (Inr (), map_at (add_children (map PartInfo_of ps)) pli doc)"
  using loop_prefix[OF assms, of "[]"] by (simp add: op_return_def)

lemma loop_frame:
  assumes "get_at doc pli = Some e"
  shows "\<exists>xs. snd (payload_append_loop pli ps doc) = map_at (add_children xs) pli doc \<and>
              length xs \<le> length ps \<and>
              ((\<exists>p\<in>set ps. p ''href'' = None \<or> p ''mimetype'' = None) \<longrightarrow>
                 isl (fst (payload_append_loop pli ps doc)))"
  using assms
proof (induction ps arbitrary: doc e)
  case Nil
  have "snd (payload_append_loop pli [] doc) = map_at (add_children []) pli doc"
    by (simp add: op_return_def map_at_add_Nil)
  then show ?case by (intro exI[of _ "[]"]) simp
next
  case (Cons p ps)
  obtain xs where xs: "snd (payload_append_body pli p doc) = map_at (add_children xs) pli doc"
    and len: "length xs \<le> 1"
    and bad: "p ''href'' = None \<or> p ''mimetype'' = None \<longrightarrow>
                 isl (fst (payload_append_body pli p doc))"
    using body_frame[OF Cons.prems] by blast
  obtain r doc' where r: "payload_append_body pli p doc = (r, doc')"
    by (cases "payload_append_body pli p doc")
  with xs have doc': "doc' = map_at (add_children xs) pli doc" by simp
  show ?case
  proof (cases r)
    case (Inl err)
    with r have "payload_append_body pli p doc = (Inl err, doc')" by simp
    then have "payload_append_loop pli (p # ps) doc = (Inl err, doc')"
      by (rule loop_Cons_fail)
    with doc' len show ?thesis by (intro exI[of _ xs]) simp
  next
    case (Inr u)
    with r have body: "payload_append_body pli p doc = (Inr (), doc')" by simp
    then have eq: "payload_append_loop pli (p # ps) doc = payload_append_loop pli ps doc'"
      by (rule loop_Cons_ok)
    from body bad have complete: "\<not> (p ''href'' = None \<or> p ''mimetype'' = None)" by auto
    have "get_at doc' pli = Some (add_children xs e)"
      unfolding doc' using Cons.prems by (rule get_at_map_at)
    from Cons.IH[OF this] obtain ys where
      ys: "snd (payload_append_loop pli ps doc') = map_at (add_children ys) pli doc'"
      and lys: "length ys \<le> length ps"
      and fails: "(\<exists>p\<in>set ps. p ''href'' = None \<or> p ''mimetype'' = None) \<longrightarrow>
                 isl (fst (payload_append_loop pli ps doc'))"
      by blast
    have "snd (payload_append_loop pli (p # ps) doc) = map_at (add_children (xs @ ys)) pli doc"
      using eq ys doc' by (simp add: map_at_add_add)
    moreover have "length (xs @ ys) \<le> length (p # ps)" using len lys by simp
    moreover have "(\<exists>q\<in>set (p # ps). q ''href'' = None \<or> q ''mimetype'' = None) \<longrightarrow>
                 isl (fst (payload_append_loop pli (p # ps) doc))"
      using complete fails eq by auto
    ultimately show ?thesis by blast
  qed
qed

lemma loop_stops_href:
  assumes "get_at doc pli = Some e" and "\<forall>q\<in>set pre. payload_ok q" and "p ''href'' = None"
  shows "payload_append_loop pli (pre @ p # post) doc =
           (Inl (KeyError ''href''), map_at (add_children (map PartInfo_of pre)) pli doc)"
proof -
  let ?doc = "map_at (add_children (map PartInfo_of pre)) pli doc"
  have "payload_append_body pli p ?doc = (Inl (KeyError ''href''), ?doc)"
    using assms(3) by (rule body_no_href)
  then have "payload_append_loop pli (p # post) ?doc = (Inl (KeyError ''href''), ?doc)"
    by (rule loop_Cons_fail)
  with loop_prefix[OF assms(1,2), of "p # post"] show ?thesis by simp
qed

lemma loop_stops_mimetype:
  assumes "get_at doc pli = Some e" and "\<forall>q\<in>set pre. payload_ok q"
    and "p ''href'' = Some x" and "is_valid_xml_utf8 x" and "p ''mimetype'' = None"
  shows "payload_append_loop pli (pre @ p # post) doc =
           (Inl (KeyError ''mimetype''),
            map_at (add_children (map PartInfo_of pre @ [PartInfo_stub x])) pli doc)"
proof -
  let ?doc = "map_at (add_children (map PartInfo_of pre)) pli doc"
  have "get_at ?doc pli = Some (add_children (map PartInfo_of pre) e)"
    using assms(1) by (rule get_at_map_at)
  then have "payload_append_body pli p ?doc =
      (Inl (KeyError ''mimetype''), map_at (add_children [PartInfo_stub x]) pli ?doc)"
    using assms(3,4,5) by (rule body_no_mimetype)
  then have "payload_append_loop pli (p # post) ?doc =
      (Inl (KeyError ''mimetype''), map_at (add_children [PartInfo_stub x]) pli ?doc)"
    by (rule loop_Cons_fail)
  with loop_prefix[OF assms(1,2), of "p # post"] show ?thesis by (simp add: map_at_add_add)
qed

text \<open>
  Before a payload without \<^verbatim>\<open>href\<close> the loop appends at most one element for each
  earlier payload, and at that payload, if not before, it raises.
\<close>

lemma loop_before_no_href:
  assumes "get_at doc pli = Some e" and "p ''href'' = None"
  shows "\<exists>err xs. payload_append_loop pli (pre @ p # post) doc =
                    (Inl err, map_at (add_children xs) pli doc) \<and>
                  length xs \<le> length pre"
  using assms(1)
proof (induction pre arbitrary: doc e)
  case Nil
  have "payload_append_body pli p doc = (Inl (KeyError ''href''), doc)"
    using assms(2) by (rule body_no_href)
  then have "payload_append_loop pli ([] @ p # post) doc =
      (Inl (KeyError ''href''), map_at (add_children []) pli doc)"
    unfolding append_Nil map_at_add_Nil by (rule loop_Cons_fail)
  then show ?case by (intro exI[of _ "KeyError ''href''"] exI[of _ "[]"]) simp
next
  case (Cons q pre)
  obtain xs where xs: "snd (payload_append_body pli q doc) = map_at (add_children xs) pli doc"
    and len: "length xs \<le> 1"
    using body_frame[OF Cons.prems] by blast
  obtain r doc' where r: "payload_append_body pli q doc = (r, doc')"
    by (cases "payload_append_body pli q doc")
  with xs have doc': "doc' = map_at (add_children xs) pli doc" by simp
  show ?case
  proof (cases r)
    case (Inl err)
    with r have "payload_append_body pli q doc = (Inl err, doc')" by simp
    then have "payload_append_loop pli ((q # pre) @ p # post) doc = (Inl err, doc')"
      unfolding append_Cons by (rule loop_Cons_fail)
    with doc' len show ?thesis by (intro exI[of _ err] exI[of _ xs]) simp
  next
    case (Inr u)
    with r have "payload_append_body pli q doc = (Inr (), doc')" by simp
    then have eq: "payload_append_loop pli ((q # pre) @ p # post) doc =
        payload_append_loop pli (pre @ p # post) doc'"
      unfolding append_Cons by (rule loop_Cons_ok)
    have "get_at doc' pli = Some (add_children xs e)"
      unfolding doc' using Cons.prems by (rule get_at_map_at)
    from Cons.IH[OF this] obtain err ys where
      "payload_append_loop pli (pre @ p # post) doc' =
         (Inl err, map_at (add_children ys) pli doc')"
      and "length ys \<le> length pre"
      by blast
    with eq doc' len have
      "payload_append_loop pli ((q # pre) @ p # post) doc =
         (Inl err, map_at (add_children (xs @ ys)) pli doc) \<and>
       length (xs @ ys) \<le> length (q # pre)"
      by (simp add: map_at_add_add)
    then show ?thesis by blast
  qed
qed

lemma shape_get:
  "get_at (Messaging_shape i1 t1 i2 t2 i3 t3 i4 t4 cv sv ac ro parts) [0, 3] =
     Some (Element (eb3 ''PayloadInfo'') [] [] None parts)"
  by (simp add: Messaging_shape_def)

lemma shape_add:
  "map_at (add_children xs) [0, 3] (Messaging_shape i1 t1 i2 t2 i3 t3 i4 t4 cv sv ac ro parts) =
     Messaging_shape i1 t1 i2 t2 i3 t3 i4 t4 cv sv ac ro (parts @ xs)"
  by (simp add: Messaging_shape_def)

section \<open>The object and its invariant\<close>

lemma shape_children:
  "children_at (Messaging_shape i1 t1 i2 t2 i3 t3 i4 t4 cv sv ac ro parts) [0, 3] = parts"
  by (simp only: children_at_def shape_get option.case etree_element.sel)

lemma payload_append_eq:
  "payload_append h ps =
     (fst (payload_append_loop (pay_load_info h) ps (p_xml h)),
      h\<lparr>p_xml := snd (payload_append_loop (pay_load_info h) ps (p_xml h))\<rparr>)"
  by (simp add: payload_append_def split: prod.splits)

lemma Header_init_Inr:
  assumes "Header_init cls c1 t1 c2 t2 c3 t3 c4 t4 cv sv st ac ro = Inr h"
  shows "h = \<lparr>p_xml =
                  Messaging_shape c1 t1 c2 t2 c3 t3 c4 t4
                    (default cv (init_default_conversationid cls))
                    (default sv ''http://docs.oasis-open.org/ebxml-msg/as4/200902/service'')
                    (default ac ''http://docs.oasis-open.org/ebxml-msg/as4/200902/action'')
                    (default ro ''http://sdg.europa.eu/edelivery/gateway'') [],
                c1_party_id = c1, c1_party_id_type = t1,
                c2_party_id = c2, c2_party_id_type = t2,
                c3_party_id = c3, c3_party_id_type = t3,
                c4_party_id = c4, c4_party_id_type = t4,
                service = default sv ''http://docs.oasis-open.org/ebxml-msg/as4/200902/service'',
                service_type = default st ''urn:oasis:names:tc:ebcore:ebrs:ebms:binding:1.0'',
                action = default ac ''http://docs.oasis-open.org/ebxml-msg/as4/200902/action'',
                conversationid = default cv (init_default_conversationid cls),
                role = default ro ''http://sdg.europa.eu/edelivery/gateway'',
                pay_load_info = [0, 3]\<rparr>"
    and "c1 \<noteq> None" "c2 \<noteq> None" "c3 \<noteq> None" "c4 \<noteq> None"
    and "init_strings_ok cls c1 t1 c2 t2 c3 t3 c4 t4 cv sv ac ro"
  using assms by (auto simp: Header_init_eq split: if_splits)

lemma shaped_children: "shaped h parts \<Longrightarrow> PayloadInfo_children h = parts"
  by (simp add: shaped_def PayloadInfo_children_def shape_children)

lemma shaped_init:
  "Header_init cls c1 t1 c2 t2 c3 t3 c4 t4 cv sv st ac ro = Inr h \<Longrightarrow> shaped h []"
  by (drule Header_init_Inr(1)) (simp add: shaped_def)

lemma shaped_loop:
  assumes "shaped h parts"
  shows "\<exists>xs. snd (payload_append_loop [0, 3] ps (p_xml h)) =
            map_at (add_children xs) [0, 3] (p_xml h)"
proof -
  have "get_at (p_xml h) [0, 3] = Some (Element (eb3 ''PayloadInfo'') [] [] None parts)"
    using assms unfolding shaped_def by (simp only: shape_get)
  from loop_frame[OF this] show ?thesis by blast
qed

lemma shaped_update:
  "shaped h parts \<Longrightarrow>
   shaped (h\<lparr>p_xml := map_at (add_children xs) [0, 3] (p_xml h)\<rparr>) (parts @ xs)"
  by (simp add: shaped_def shape_add)

lemma shaped_append:
  assumes "shaped h parts" and "payload_append h ps = (r, h')"
  shows "\<exists>xs. h' = h\<lparr>p_xml := map_at (add_children xs) [0, 3] (p_xml h)\<rparr> \<and>
              shaped h' (parts @ xs)"
proof -
  have pli: "pay_load_info h = [0, 3]" using assms(1) by (simp add: shaped_def)
  obtain xs where xs: "snd (payload_append_loop [0, 3] ps (p_xml h)) =
      map_at (add_children xs) [0, 3] (p_xml h)"
    using shaped_loop[OF assms(1)] by blast
  have "h' = h\<lparr>p_xml := map_at (add_children xs) [0, 3] (p_xml h)\<rparr>"
    using assms(2) xs by (simp add: payload_append_eq pli)
  with shaped_update[OF assms(1)] show ?thesis by blast
qed

lemma reachable_shaped: "reachable h \<Longrightarrow> \<exists>parts. shaped h parts"
proof (induction rule: reachable.induct)
  case (constructed cls c1 t1 c2 t2 c3 t3 c4 t4 cv sv st ac ro h)
  then show ?case by (blast intro: shaped_init)
next
  case (appended h payloads r h')
  then obtain parts where "shaped h parts" by blast
  from shaped_append[OF this appended.hyps(2)]
  obtain xs where "shaped h' (parts @ xs)" by blast
  then show ?case ..
next
  case (serialised h tostring b h')
  then show ?case by (simp add: xml_def)
qed


lemma reachable_children:
  assumes "reachable h"
  shows "shaped h (PayloadInfo_children h)"
proof -
  from reachable_shaped[OF assms] obtain parts where "shaped h parts" ..
  then show ?thesis by (simp add: shaped_children)
qed

lemma reachable_valid:
  assumes "reachable h"
  shows "get_at (p_xml h) (pay_load_info h) =
           Some (Element (eb3 ''PayloadInfo'') [] [] None (PayloadInfo_children h))"
  using reachable_children[OF assms] unfolding shaped_def by (simp only: shape_get)

lemma children_after:
  assumes "reachable h"
  shows "PayloadInfo_children (h\<lparr>p_xml := map_at (add_children xs) (pay_load_info h) (p_xml h)\<rparr>) =
           PayloadInfo_children h @ xs"
proof -
  have "shaped h (PayloadInfo_children h)" using assms by (rule reachable_children)
  then have "shaped (h\<lparr>p_xml := map_at (add_children xs) [0, 3] (p_xml h)\<rparr>)
      (PayloadInfo_children h @ xs)" by (rule shaped_update)
  moreover have "pay_load_info h = [0, 3]"
    using reachable_children[OF assms] by (simp add: shaped_def)
  ultimately show ?thesis by (simp add: shaped_children)
qed

lemmas concrete = init_strings_ok_def payload_ok_def xml_compatible_simps default_def
  xmlIsChar_ch_def not_xml_compatible_def

section \<open>Construction\<close>

text \<open>
  Claim C1. Every successful construction builds exactly the fixed tree: Messaging,
  UserMessage, PartyInfo with From (PartyId, Role) and To (PartyId, Role),
  CollaborationInfo with Service, Action and ConversationId, MessageProperties with the
  two Property elements, and PayloadInfo, in that order. From/PartyId carries the
  second party's identifier and type, To/PartyId the third party's, both Role elements
  the role string, the first Property is originalSender with the first party's type and
  identifier, the second finalRecipient with the fourth party's, and PayloadInfo has no
  children.
\<close>

theorem Header_tree_shape:
  assumes "Header_init cls c1 t1 c2 t2 c3 t3 c4 t4 cv sv st ac ro = Inr h"
  shows "element h =
           Messaging_shape c1 t1 c2 t2 c3 t3 c4 t4
             (default cv (init_default_conversationid cls))
             (default sv ''http://docs.oasis-open.org/ebxml-msg/as4/200902/service'')
             (default ac ''http://docs.oasis-open.org/ebxml-msg/as4/200902/action'')
             (default ro ''http://sdg.europa.eu/edelivery/gateway'') [] \<and>
         c1 \<noteq> None \<and> c2 \<noteq> None \<and> c3 \<noteq> None \<and> c4 \<noteq> None \<and>
         get_at (element h) (pay_load_info h) =
           Some (Element (eb3 ''PayloadInfo'') [] [] None [])"
proof -
  note init = Header_init_Inr[OF assms]
  have "reachable h" using assms by (rule reachable.constructed)
  moreover have "PayloadInfo_children h = []"
    using shaped_init[OF assms] by (rule shaped_children)
  ultimately have "get_at (p_xml h) (pay_load_info h) =
      Some (Element (eb3 ''PayloadInfo'') [] [] None [])"
    using reachable_valid[of h] by simp
  moreover have "p_xml h =
      Messaging_shape c1 t1 c2 t2 c3 t3 c4 t4
        (default cv (init_default_conversationid cls))
        (default sv ''http://docs.oasis-open.org/ebxml-msg/as4/200902/service'')
        (default ac ''http://docs.oasis-open.org/ebxml-msg/as4/200902/action'')
        (default ro ''http://sdg.europa.eu/edelivery/gateway'') []"
    by (subst init(1)) simp
  ultimately show ?thesis using init(2-) by (simp add: element_def)
qed

theorem Header_tree_shape_witness:
  "\<exists>h. Header_init \<lparr>init_default_conversationid = ''conv-0''\<rparr>
          (Some ''sender'') ''urn:type:1'' (Some ''gw-a'') ''urn:type:2''
          (Some ''gw-b'') ''urn:type:3'' (Some ''recipient'') ''urn:type:4''
          Omitted Omitted Omitted Omitted (Given ''urn:role'') = Inr h \<and>
        element h =
          Messaging_shape (Some ''sender'') ''urn:type:1'' (Some ''gw-a'') ''urn:type:2''
            (Some ''gw-b'') ''urn:type:3'' (Some ''recipient'') ''urn:type:4'' ''conv-0''
            ''http://docs.oasis-open.org/ebxml-msg/as4/200902/service''
            ''http://docs.oasis-open.org/ebxml-msg/as4/200902/action'' ''urn:role'' []"
proof -
  obtain h where h: "Header_init \<lparr>init_default_conversationid = ''conv-0''\<rparr>
          (Some ''sender'') ''urn:type:1'' (Some ''gw-a'') ''urn:type:2''
          (Some ''gw-b'') ''urn:type:3'' (Some ''recipient'') ''urn:type:4''
          Omitted Omitted Omitted Omitted (Given ''urn:role'') = Inr h"
    by (simp add: Header_init_eq concrete)
  from Header_tree_shape[OF h] h show ?thesis by (simp add: default_def)
qed

text \<open>
  Claim C3, as amended. Construction raises the \<^verbatim>\<open>ValueError\<close> of the constructor's own
  check if and only if one of the four party identifiers is \<^verbatim>\<open>None\<close>, and then no
  object is returned. When all four are given, construction succeeds if and only if
  every string it hands to the tree (the identifiers, the identifier types, the
  conversation id, the service, the action and the role) is XML-compatible, which the
  empty string is; otherwise the library's \<^verbatim>\<open>ValueError\<close> is raised and again no object
  is returned. Nothing else about these values is checked, and the service type is not
  looked at.
\<close>

theorem Header_init_outcomes:
  "(Header_init cls c1 t1 c2 t2 c3 t3 c4 t4 cv sv st ac ro =
      Inl (ValueError ''Parameters must not be None'') \<longleftrightarrow>
    c1 = None \<or> c2 = None \<or> c3 = None \<or> c4 = None) \<and>
   ((\<exists>h. Header_init cls c1 t1 c2 t2 c3 t3 c4 t4 cv sv st ac ro = Inr h) \<longleftrightarrow>
    c1 \<noteq> None \<and> c2 \<noteq> None \<and> c3 \<noteq> None \<and> c4 \<noteq> None \<and>
    init_strings_ok cls c1 t1 c2 t2 c3 t3 c4 t4 cv sv ac ro) \<and>
   (Header_init cls c1 t1 c2 t2 c3 t3 c4 t4 cv sv st ac ro = Inl not_xml_compatible \<longleftrightarrow>
    c1 \<noteq> None \<and> c2 \<noteq> None \<and> c3 \<noteq> None \<and> c4 \<noteq> None \<and>
    \<not> init_strings_ok cls c1 t1 c2 t2 c3 t3 c4 t4 cv sv ac ro) \<and>
   is_valid_xml_utf8 []"
  by (simp add: Header_init_eq not_xml_compatible_def)

theorem Header_init_outcomes_witness:
  "Header_init \<lparr>init_default_conversationid = ''conv-0''\<rparr>
     (Some ''sender'') ''urn:type:1'' None ''urn:type:2''
     (Some ''gw-b'') ''urn:type:3'' (Some ''recipient'') ''urn:type:4''
     Omitted Omitted Omitted Omitted Omitted =
     Inl (ValueError ''Parameters must not be None'') \<and>
   (\<exists>h. Header_init \<lparr>init_default_conversationid = ''conv-0''\<rparr>
     (Some ''sender'') [] (Some ''gw-a'') [] (Some ''gw-b'') [] (Some ''recipient'') []
     (Given []) (Given []) (Given []) (Given []) (Given []) = Inr h) \<and>
   Header_init \<lparr>init_default_conversationid = ''conv-0''\<rparr>
     (Some ''sender'') ''urn:type:1'' (Some ''gw-a'') ''urn:type:2''
     (Some ''gw-b'') ''urn:type:3'' (Some ''recipient'') ''urn:type:4''
     Omitted Omitted Omitted Omitted (Given [CHR 0x0B]) = Inl not_xml_compatible"
  using
    Header_init_outcomes[of "\<lparr>init_default_conversationid = ''conv-0''\<rparr>"
      "Some ''sender''" "''urn:type:1''" None "''urn:type:2''" "Some ''gw-b''" "''urn:type:3''"
      "Some ''recipient''" "''urn:type:4''" Omitted Omitted Omitted Omitted Omitted]
    Header_init_outcomes[of "\<lparr>init_default_conversationid = ''conv-0''\<rparr>"
      "Some ''sender''" "[]" "Some ''gw-a''" "[]" "Some ''gw-b''" "[]"
      "Some ''recipient''" "[]" "Given []" "Given []" "Given []" "Given []" "Given []"]
    Header_init_outcomes[of "\<lparr>init_default_conversationid = ''conv-0''\<rparr>"
      "Some ''sender''" "''urn:type:1''" "Some ''gw-a''" "''urn:type:2''" "Some ''gw-b''"
      "''urn:type:3''" "Some ''recipient''" "''urn:type:4''" Omitted Omitted Omitted Omitted
      "Given [CHR 0x0B]"]
  by (simp add: init_strings_ok_def xml_compatible_simps default_def xmlIsChar_ch_def)

text \<open>
  The claim as stated promises success whenever the four identifiers are given. With
  all four given and a \<^verbatim>\<open>NUL\<close> character in the first identifier the library refuses
  the text of the \<^verbatim>\<open>Property\<close> element and the constructor raises.
\<close>

theorem Header_init_refused_counterexample:
  "Header_init \<lparr>init_default_conversationid = ''conv-0''\<rparr>
     (Some [CHR ''i'', CHR ''d'', CHR 0x00]) ''urn:type:1'' (Some ''gw-a'') ''urn:type:2''
     (Some ''gw-b'') ''urn:type:3'' (Some ''recipient'') ''urn:type:4''
     Omitted Omitted Omitted Omitted Omitted = Inl not_xml_compatible"
  by (simp add: Header_init_eq init_strings_ok_def xml_compatible_simps default_def
      xmlIsChar_ch_def)

text \<open>
  Claim C7, as amended. Construction is a hard failure when one of the four party
  identifiers is \<^verbatim>\<open>None\<close>. The empty string is not refused: it is XML-compatible, and an
  input whose identifiers are given, some of them empty, is constructed whenever the
  strings handed to the tree are XML-compatible.
\<close>

theorem Header_init_rejects_None_only:
  "(c1 = None \<or> c2 = None \<or> c3 = None \<or> c4 = None \<longrightarrow>
      Header_init cls c1 t1 c2 t2 c3 t3 c4 t4 cv sv st ac ro =
        Inl (ValueError ''Parameters must not be None'')) \<and>
   (c1 \<noteq> None \<and> c2 \<noteq> None \<and> c3 \<noteq> None \<and> c4 \<noteq> None \<and>
    (c1 = Some [] \<or> c2 = Some [] \<or> c3 = Some [] \<or> c4 = Some []) \<and>
    init_strings_ok cls c1 t1 c2 t2 c3 t3 c4 t4 cv sv ac ro \<longrightarrow>
      \<not> isl (Header_init cls c1 t1 c2 t2 c3 t3 c4 t4 cv sv st ac ro)) \<and>
   xml_compatible (Some [])"
  by (simp add: Header_init_eq xml_compatible_simps)

theorem Header_init_rejects_None_only_witness:
  "Header_init \<lparr>init_default_conversationid = ''conv-0''\<rparr>
     (Some ''sender'') ''urn:type:1'' (Some ''gw-a'') ''urn:type:2''
     (Some ''gw-b'') ''urn:type:3'' None ''urn:type:4''
     Omitted Omitted Omitted Omitted Omitted =
     Inl (ValueError ''Parameters must not be None'') \<and>
   \<not> isl (Header_init \<lparr>init_default_conversationid = ''conv-0''\<rparr>
     (Some ''sender'') ''urn:type:1'' (Some []) ''urn:type:2''
     (Some ''gw-b'') ''urn:type:3'' (Some ''recipient'') ''urn:type:4''
     Omitted Omitted Omitted Omitted Omitted)"
  using
    Header_init_rejects_None_only[of "Some ''sender''" "Some ''gw-a''" "Some ''gw-b''" None
      "\<lparr>init_default_conversationid = ''conv-0''\<rparr>" "''urn:type:1''" "''urn:type:2''"
      "''urn:type:3''" "''urn:type:4''" Omitted Omitted Omitted Omitted Omitted]
    Header_init_rejects_None_only[of "Some ''sender''" "Some []" "Some ''gw-b''"
      "Some ''recipient''"
      "\<lparr>init_default_conversationid = ''conv-0''\<rparr>" "''urn:type:1''" "''urn:type:2''"
      "''urn:type:3''" "''urn:type:4''" Omitted Omitted Omitted Omitted Omitted]
  by (simp add: init_strings_ok_def xml_compatible_simps default_def xmlIsChar_ch_def)

text \<open>
  The claim as stated asks for a failure on an empty identifier. The constructor only
  compares with \<^verbatim>\<open>None\<close>: with the empty string as the first identifier it succeeds.
\<close>

theorem Header_init_empty_id_counterexample:
  "\<not> isl (Header_init \<lparr>init_default_conversationid = ''conv-0''\<rparr>
            (Some []) ''urn:type:1'' (Some ''gw-a'') ''urn:type:2''
            (Some ''gw-b'') ''urn:type:3'' (Some ''recipient'') ''urn:type:4''
            Omitted Omitted Omitted Omitted Omitted)"
  by (simp add: Header_init_eq init_strings_ok_def xml_compatible_simps default_def
      xmlIsChar_ch_def)

text \<open>
  Claim C5 asks that two objects constructed without \<^verbatim>\<open>conversationid\<close> get different
  conversation ids. The code does not do that: the default is the one value drawn when
  the class body ran, so every such object of the process carries the same id.
\<close>


theorem default_conversationid_shared:
  assumes "class_Header r = (cls, r')"
    and "Header_init cls a1 ta1 a2 ta2 a3 ta3 a4 ta4 Omitted sv st ac ro = Inr h1"
    and "Header_init cls b1 tb1 b2 tb2 b3 tb3 b4 tb4 Omitted sv' st' ac' ro' = Inr h2"
  shows "conversationid h1 = conversationid h2 \<and> conversationid h1 = pool r (drawn r)"
proof -
  have "init_default_conversationid cls = pool r (drawn r)"
    using assms(1) by (auto simp: class_Header_def uuid4_def)
  moreover have "conversationid h1 = init_default_conversationid cls"
    by (subst Header_init_Inr(1)[OF assms(2)]) (simp add: default_def)
  moreover have "conversationid h2 = init_default_conversationid cls"
    by (subst Header_init_Inr(1)[OF assms(3)]) (simp add: default_def)
  ultimately show ?thesis by simp
qed

theorem default_conversationid_shared_witness:
  "\<exists>cls r' h1 h2.
     class_Header \<lparr>pool = (\<lambda>n. replicate (Suc n) CHR ''u''), drawn = 0\<rparr> = (cls, r') \<and>
     Header_init cls (Some ''sender'') ''urn:type:1'' (Some ''gw-a'') ''urn:type:2''
       (Some ''gw-b'') ''urn:type:3'' (Some ''recipient'') ''urn:type:4''
       Omitted Omitted Omitted Omitted Omitted = Inr h1 \<and>
     Header_init cls (Some ''other'') ''urn:type:1'' (Some ''gw-c'') ''urn:type:2''
       (Some ''gw-d'') ''urn:type:3'' (Some ''target'') ''urn:type:4''
       Omitted Omitted Omitted Omitted Omitted = Inr h2 \<and>
     conversationid h1 = ''u'' \<and> conversationid h2 = ''u''"
proof -
  let ?r = "\<lparr>pool = (\<lambda>n. replicate (Suc n) CHR ''u''), drawn = 0\<rparr>"
  let ?cls = "\<lparr>init_default_conversationid = ''u''\<rparr>"
  have c: "class_Header ?r = (?cls, ?r\<lparr>drawn := Suc 0\<rparr>)"
    by (simp add: class_Header_def uuid4_def)
  obtain h1 where h1: "Header_init ?cls (Some ''sender'') ''urn:type:1'' (Some ''gw-a'')
       ''urn:type:2'' (Some ''gw-b'') ''urn:type:3'' (Some ''recipient'') ''urn:type:4''
       Omitted Omitted Omitted Omitted Omitted = Inr h1"
    by (simp add: Header_init_eq concrete)
  obtain h2 where h2: "Header_init ?cls (Some ''other'') ''urn:type:1'' (Some ''gw-c'')
       ''urn:type:2'' (Some ''gw-d'') ''urn:type:3'' (Some ''target'') ''urn:type:4''
       Omitted Omitted Omitted Omitted Omitted = Inr h2"
    by (simp add: Header_init_eq concrete)
  from default_conversationid_shared[OF c h1 h2]
  have "conversationid h1 = ''u'' \<and> conversationid h2 = ''u''" by auto
  with c h1 h2 show ?thesis by blast
qed

text \<open>
  Claim C6. The \<^verbatim>\<open>Service\<close> element's \<^verbatim>\<open>type\<close> attribute is the fixed string
  \<^verbatim>\<open>urn:oasis:names:tc:ebcore:ebrs:ebms:binding:1.0\<close>, and the \<^verbatim>\<open>service_type\<close>
  argument has no influence on the tree: any other value gives the same tree, and
  \<^verbatim>\<open>__toxml\<close> does not read the attribute.
\<close>


theorem service_type_unused:
  assumes "Header_init cls c1 t1 c2 t2 c3 t3 c4 t4 cv sv st ac ro = Inr h"
  shows "get_at (element h) [0, 1, 0] =
           Some (Element (eb3 ''Service'') []
                  [(''type'', ''urn:oasis:names:tc:ebcore:ebrs:ebms:binding:1.0'')]
                  (Some (service h)) []) \<and>
         (\<exists>h'. Header_init cls c1 t1 c2 t2 c3 t3 c4 t4 cv sv st' ac ro = Inr h' \<and>
               element h' = element h) \<and>
         toxml (self\<lparr>service_type := s\<rparr>) = toxml self"
proof -
  note init = Header_init_Inr[OF assms]
  have tree: "p_xml h =
      Messaging_shape c1 t1 c2 t2 c3 t3 c4 t4
        (default cv (init_default_conversationid cls))
        (default sv ''http://docs.oasis-open.org/ebxml-msg/as4/200902/service'')
        (default ac ''http://docs.oasis-open.org/ebxml-msg/as4/200902/action'')
        (default ro ''http://sdg.europa.eu/edelivery/gateway'') []"
    by (subst init(1)) simp
  have srv: "service h = default sv ''http://docs.oasis-open.org/ebxml-msg/as4/200902/service''"
    by (subst init(1)) simp
  have "get_at (element h) [0, 1, 0] =
           Some (Element (eb3 ''Service'') []
                  [(''type'', ''urn:oasis:names:tc:ebcore:ebrs:ebms:binding:1.0'')]
                  (Some (service h)) [])"
    unfolding element_def tree srv by (simp add: Messaging_shape_def)
  moreover have "\<exists>h'. Header_init cls c1 t1 c2 t2 c3 t3 c4 t4 cv sv st' ac ro = Inr h' \<and>
               element h' = element h"
    using init(2-) unfolding element_def tree by (simp add: Header_init_eq)
  moreover have "toxml (self\<lparr>service_type := s\<rparr>) = toxml self"
    by (simp add: toxml_def)
  ultimately show ?thesis by blast
qed

theorem service_type_unused_witness:
  "\<exists>h h'.
     Header_init \<lparr>init_default_conversationid = ''conv-0''\<rparr>
       (Some ''sender'') ''urn:type:1'' (Some ''gw-a'') ''urn:type:2''
       (Some ''gw-b'') ''urn:type:3'' (Some ''recipient'') ''urn:type:4''
       Omitted (Given ''urn:svc'') (Given ''urn:my-service-type'') Omitted Omitted = Inr h \<and>
     Header_init \<lparr>init_default_conversationid = ''conv-0''\<rparr>
       (Some ''sender'') ''urn:type:1'' (Some ''gw-a'') ''urn:type:2''
       (Some ''gw-b'') ''urn:type:3'' (Some ''recipient'') ''urn:type:4''
       Omitted (Given ''urn:svc'') Omitted Omitted Omitted = Inr h' \<and>
     element h' = element h \<and>
     get_at (element h) [0, 1, 0] =
       Some (Element (eb3 ''Service'') []
              [(''type'', ''urn:oasis:names:tc:ebcore:ebrs:ebms:binding:1.0'')]
              (Some ''urn:svc'') [])"
proof -
  obtain h where h: "Header_init \<lparr>init_default_conversationid = ''conv-0''\<rparr>
       (Some ''sender'') ''urn:type:1'' (Some ''gw-a'') ''urn:type:2''
       (Some ''gw-b'') ''urn:type:3'' (Some ''recipient'') ''urn:type:4''
       Omitted (Given ''urn:svc'') (Given ''urn:my-service-type'') Omitted Omitted = Inr h"
    by (simp add: Header_init_eq concrete)
  have "service h = ''urn:svc''"
    by (subst Header_init_Inr(1)[OF h]) (simp add: default_def)
  from service_type_unused[OF h, where st' = Omitted]
  obtain h' where h': "Header_init \<lparr>init_default_conversationid = ''conv-0''\<rparr>
       (Some ''sender'') ''urn:type:1'' (Some ''gw-a'') ''urn:type:2''
       (Some ''gw-b'') ''urn:type:3'' (Some ''recipient'') ''urn:type:4''
       Omitted (Given ''urn:svc'') Omitted Omitted Omitted = Inr h'"
    and same: "element h' = element h"
    and srv: "get_at (element h) [0, 1, 0] =
       Some (Element (eb3 ''Service'') []
              [(''type'', ''urn:oasis:names:tc:ebcore:ebrs:ebms:binding:1.0'')]
              (Some (service h)) [])"
    by blast
  from srv \<open>service h = ''urn:svc''\<close> have "get_at (element h) [0, 1, 0] =
       Some (Element (eb3 ''Service'') []
              [(''type'', ''urn:oasis:names:tc:ebcore:ebrs:ebms:binding:1.0'')]
              (Some ''urn:svc'') [])"
    by (simp only:)
  with h h' same show ?thesis by blast
qed

section \<open>Appending payloads\<close>

lemma append_ok:
  assumes "reachable h" and "\<forall>p\<in>set ps. payload_ok p"
  shows "payload_append h ps =
           (Inr (), h\<lparr>p_xml := map_at (add_children (map PartInfo_of ps)) (pay_load_info h) (p_xml h)\<rparr>)"
  using loop_ok[OF reachable_valid[OF assms(1)] assms(2)] by (simp add: payload_append_eq)

lemma append_stops_href:
  assumes "reachable h" and "\<forall>q\<in>set pre. payload_ok q" and "p ''href'' = None"
  shows "payload_append h (pre @ p # post) =
           (Inl (KeyError ''href''),
            h\<lparr>p_xml := map_at (add_children (map PartInfo_of pre)) (pay_load_info h) (p_xml h)\<rparr>)"
  using loop_stops_href[where p = p, OF reachable_valid[OF assms(1)] assms(2,3)]
  by (simp add: payload_append_eq)

lemma append_stops_mimetype:
  assumes "reachable h" and "\<forall>q\<in>set pre. payload_ok q"
    and "p ''href'' = Some x" and "is_valid_xml_utf8 x" and "p ''mimetype'' = None"
  shows "payload_append h (pre @ p # post) =
           (Inl (KeyError ''mimetype''),
            h\<lparr>p_xml := map_at (add_children (map PartInfo_of pre @ [PartInfo_stub x]))
                          (pay_load_info h) (p_xml h)\<rparr>)"
  using loop_stops_mimetype[where p = p, OF reachable_valid[OF assms(1)] assms(2,3,4,5)]
  by (simp add: payload_append_eq)

lemma append_refused_href:
  assumes "p ''href'' = Some x" and "\<not> is_valid_xml_utf8 x"
  shows "payload_append h (p # ps) = (Inl not_xml_compatible, h)"
proof -
  have "payload_append_body (pay_load_info h) p (p_xml h) = (Inl not_xml_compatible, p_xml h)"
    using assms by (rule body_bad_href)
  then have "payload_append_loop (pay_load_info h) (p # ps) (p_xml h) =
      (Inl not_xml_compatible, p_xml h)"
    by (rule loop_Cons_fail)
  then show ?thesis by (simp add: payload_append_eq)
qed

lemma append_incomplete_fails:
  assumes "reachable h" and "\<exists>p\<in>set ps. p ''href'' = None \<or> p ''mimetype'' = None"
  shows "\<exists>err h'. payload_append h ps = (Inl err, h')"
proof -
  from loop_frame[OF reachable_valid[OF assms(1)], of ps] assms(2)
  have "isl (fst (payload_append_loop (pay_load_info h) ps (p_xml h)))" by blast
  then obtain err where
    "fst (payload_append_loop (pay_load_info h) ps (p_xml h)) = Inl err"
    by (auto simp: isl_def)
  then show ?thesis by (simp add: payload_append_eq)
qed

lemma append_before_no_href:
  assumes "reachable h" and "p ''href'' = None"
  shows "\<exists>err xs. payload_append h (pre @ p # post) =
             (Inl err, h\<lparr>p_xml := map_at (add_children xs) (pay_load_info h) (p_xml h)\<rparr>) \<and>
           length xs \<le> length pre"
proof -
  from loop_before_no_href[where p = p and pre = pre and post = post,
      OF reachable_valid[OF assms(1)] assms(2)]
  obtain err xs where
    "payload_append_loop (pay_load_info h) (pre @ p # post) (p_xml h) =
       (Inl err, map_at (add_children xs) (pay_load_info h) (p_xml h))"
    and "length xs \<le> length pre"
    by blast
  then show ?thesis by (intro exI[of _ err] exI[of _ xs]) (simp add: payload_append_eq)
qed

lemma shape_siblings:
  "get_at (Messaging_shape i1 t1 i2 t2 i3 t3 i4 t4 cv sv ac ro parts) [0, 0] =
     get_at (Messaging_shape i1 t1 i2 t2 i3 t3 i4 t4 cv sv ac ro parts') [0, 0]"
  "get_at (Messaging_shape i1 t1 i2 t2 i3 t3 i4 t4 cv sv ac ro parts) [0, 1] =
     get_at (Messaging_shape i1 t1 i2 t2 i3 t3 i4 t4 cv sv ac ro parts') [0, 1]"
  "get_at (Messaging_shape i1 t1 i2 t2 i3 t3 i4 t4 cv sv ac ro parts) [0, 2] =
     get_at (Messaging_shape i1 t1 i2 t2 i3 t3 i4 t4 cv sv ac ro parts') [0, 2]"
  by (simp_all add: Messaging_shape_def)

lemma shaped_siblings:
  assumes "shaped h parts" and "shaped (h\<lparr>p_xml := doc\<rparr>) parts'"
  shows "get_at doc [0, 0] = get_at (p_xml h) [0, 0] \<and>
         get_at doc [0, 1] = get_at (p_xml h) [0, 1] \<and>
         get_at doc [0, 2] = get_at (p_xml h) [0, 2]"
proof -
  let ?shape = "Messaging_shape (c1_party_id h) (c1_party_id_type h) (c2_party_id h)
         (c2_party_id_type h) (c3_party_id h) (c3_party_id_type h) (c4_party_id h)
         (c4_party_id_type h) (conversationid h) (service h) (action h) (role h)"
  have a: "p_xml h = ?shape parts" using assms(1) by (simp add: shaped_def)
  have b: "doc = ?shape parts'" using assms(2) by (simp add: shaped_def)
  show ?thesis unfolding a b by (intro conjI) (rule shape_siblings)+
qed

text \<open>
  Claim C2, as amended. For every list of payload maps that each contain \<^verbatim>\<open>href\<close> and
  \<^verbatim>\<open>mimetype\<close> and whose \<^verbatim>\<open>href\<close>, \<^verbatim>\<open>mimetype\<close> and \<^verbatim>\<open>CompressionType\<close> values are
  XML-compatible strings, \<^verbatim>\<open>payload_append\<close> returns no value and appends to
  \<^verbatim>\<open>PayloadInfo\<close>, in input order, one \<^verbatim>\<open>PartInfo\<close> per payload: its \<^verbatim>\<open>href\<close>
  attribute is the payload's, and its one \<^verbatim>\<open>PartProperties\<close> child holds the
  \<^verbatim>\<open>MimeType\<close> property and, exactly when \<^verbatim>\<open>CompressionType\<close> is present and
  truthy, the \<^verbatim>\<open>CompressionType\<close> property. A second call appends after the first
  call's elements; nothing is merged or dropped.
\<close>

theorem payload_append_appends:
  assumes "reachable h"
    and "\<forall>p\<in>set payloads. payload_ok p"
    and "\<forall>p\<in>set later. payload_ok p"
  shows "\<exists>h1 h2.
           payload_append h payloads = (Inr (), h1) \<and>
           PayloadInfo_children h1 = PayloadInfo_children h @ map PartInfo_of payloads \<and>
           payload_append h1 later = (Inr (), h2) \<and>
           PayloadInfo_children h2 =
             PayloadInfo_children h @ map PartInfo_of payloads @ map PartInfo_of later"
proof -
  let ?h1 = "h\<lparr>p_xml := map_at (add_children (map PartInfo_of payloads)) (pay_load_info h) (p_xml h)\<rparr>"
  let ?h2 = "?h1\<lparr>p_xml := map_at (add_children (map PartInfo_of later)) (pay_load_info ?h1) (p_xml ?h1)\<rparr>"
  have a1: "payload_append h payloads = (Inr (), ?h1)"
    using assms(1,2) by (rule append_ok)
  then have r1: "reachable ?h1"
    using assms(1) by (blast intro: reachable.appended)
  have c1: "PayloadInfo_children ?h1 = PayloadInfo_children h @ map PartInfo_of payloads"
    using assms(1) by (rule children_after)
  have a2: "payload_append ?h1 later = (Inr (), ?h2)"
    using r1 assms(3) by (rule append_ok)
  have "PayloadInfo_children ?h2 = PayloadInfo_children ?h1 @ map PartInfo_of later"
    using r1 by (rule children_after)
  with c1 have c2: "PayloadInfo_children ?h2 =
      PayloadInfo_children h @ map PartInfo_of payloads @ map PartInfo_of later" by simp
  from a1 c1 a2 c2 show ?thesis by blast
qed

theorem payload_append_appends_witness:
  "\<exists>h h1.
     Header_init \<lparr>init_default_conversationid = ''conv-0''\<rparr>
       (Some ''sender'') ''urn:type:1'' (Some ''gw-a'') ''urn:type:2''
       (Some ''gw-b'') ''urn:type:3'' (Some ''recipient'') ''urn:type:4''
       Omitted Omitted Omitted Omitted Omitted = Inr h \<and>
     payload_append h
       [[''href'' \<mapsto> ''cid:1'', ''mimetype'' \<mapsto> ''application/pdf''],
        [''href'' \<mapsto> ''cid:2'', ''mimetype'' \<mapsto> ''text/xml'',
         ''CompressionType'' \<mapsto> ''gzip'']] = (Inr (), h1) \<and>
     PayloadInfo_children h1 =
       [Element (eb3 ''PartInfo'') [] [(''href'', ''cid:1'')] None
         [Element (eb3 ''PartProperties'') [] [] None
           [Element (eb3 ''Property'') [] [(''name'', ''MimeType'')]
              (Some ''application/pdf'') []]],
        Element (eb3 ''PartInfo'') [] [(''href'', ''cid:2'')] None
         [Element (eb3 ''PartProperties'') [] [] None
           [Element (eb3 ''Property'') [] [(''name'', ''MimeType'')] (Some ''text/xml'') [],
            Element (eb3 ''Property'') [] [(''name'', ''CompressionType'')]
              (Some ''gzip'') []]]]"
proof -
  obtain h where h: "Header_init \<lparr>init_default_conversationid = ''conv-0''\<rparr>
       (Some ''sender'') ''urn:type:1'' (Some ''gw-a'') ''urn:type:2''
       (Some ''gw-b'') ''urn:type:3'' (Some ''recipient'') ''urn:type:4''
       Omitted Omitted Omitted Omitted Omitted = Inr h"
    by (simp add: Header_init_eq concrete)
  have reach: "reachable h" using h by (rule reachable.constructed)
  have empty: "PayloadInfo_children h = []"
    using shaped_init[OF h] by (rule shaped_children)
  let ?ps = "[[''href'' \<mapsto> ''cid:1'', ''mimetype'' \<mapsto> ''application/pdf''],
        [''href'' \<mapsto> ''cid:2'', ''mimetype'' \<mapsto> ''text/xml'',
         ''CompressionType'' \<mapsto> ''gzip'']]"
  have "\<forall>p\<in>set ?ps. payload_ok p" by (simp add: concrete)
  from payload_append_appends[OF reach this, of "[]"]
  obtain h1 where "payload_append h ?ps = (Inr (), h1)"
    and "PayloadInfo_children h1 = PayloadInfo_children h @ map PartInfo_of ?ps"
    by auto
  with h empty show ?thesis
    by (simp add: PartInfo_of_def PartInfo_shape_def)
qed

text \<open>
  The claim as stated covers every map that has both keys. A map with both keys whose
  \<^verbatim>\<open>href\<close> holds a \<^verbatim>\<open>NUL\<close> character makes the call raise \<^verbatim>\<open>ValueError\<close> and append
  nothing.
\<close>

theorem payload_append_refused_counterexample:
  "fst (payload_append
          (projr (Header_init \<lparr>init_default_conversationid = ''conv-0''\<rparr>
       (Some ''sender'') ''urn:type:1'' (Some ''gw-a'') ''urn:type:2''
       (Some ''gw-b'') ''urn:type:3'' (Some ''recipient'') ''urn:type:4''
       Omitted Omitted Omitted Omitted Omitted))
          [[''href'' \<mapsto> [CHR ''c'', CHR ''i'', CHR ''d'', CHR 0x00],
            ''mimetype'' \<mapsto> ''text/xml'']]) = Inl not_xml_compatible \<and>
   PayloadInfo_children
     (snd (payload_append
          (projr (Header_init \<lparr>init_default_conversationid = ''conv-0''\<rparr>
       (Some ''sender'') ''urn:type:1'' (Some ''gw-a'') ''urn:type:2''
       (Some ''gw-b'') ''urn:type:3'' (Some ''recipient'') ''urn:type:4''
       Omitted Omitted Omitted Omitted Omitted))
          [[''href'' \<mapsto> [CHR ''c'', CHR ''i'', CHR ''d'', CHR 0x00],
            ''mimetype'' \<mapsto> ''text/xml'']])) = []"
proof -
  obtain h where h: "Header_init \<lparr>init_default_conversationid = ''conv-0''\<rparr>
       (Some ''sender'') ''urn:type:1'' (Some ''gw-a'') ''urn:type:2''
       (Some ''gw-b'') ''urn:type:3'' (Some ''recipient'') ''urn:type:4''
       Omitted Omitted Omitted Omitted Omitted = Inr h"
    by (simp add: Header_init_eq concrete)
  have reach: "reachable h" using h by (rule reachable.constructed)
  have empty: "PayloadInfo_children h = []"
    using shaped_init[OF h] by (rule shaped_children)
  let ?p = "[''href'' \<mapsto> [CHR ''c'', CHR ''i'', CHR ''d'', CHR 0x00],
            ''mimetype'' \<mapsto> ''text/xml'']"
  have "payload_append h [?p] = (Inl not_xml_compatible, h)"
    by (rule append_refused_href[where x = "[CHR ''c'', CHR ''i'', CHR ''d'', CHR 0x00]"])
      (simp_all add: xmlIsChar_ch_def)
  then show ?thesis using empty by (simp add: h)
qed

text \<open>
  Claim C9. A call of \<^verbatim>\<open>payload_append\<close> on an object the program can hold changes
  the document only by appending to the children of \<^verbatim>\<open>PayloadInfo\<close>: the children
  that were there stay, in place, the \<^verbatim>\<open>PartyInfo\<close>, \<^verbatim>\<open>CollaborationInfo\<close> and
  \<^verbatim>\<open>MessageProperties\<close> subtrees and the elements above them are the same, and every
  other attribute of the object (parties, service, action, conversation id, role) keeps
  its value. This holds for failed calls as well as successful ones.
\<close>


theorem payload_append_frame:
  assumes "reachable h" and "payload_append h payloads = (r, h')"
  shows "\<exists>added.
           element h' = map_at (add_children added) (pay_load_info h) (element h) \<and>
           h' = h\<lparr>p_xml := element h'\<rparr> \<and>
           PayloadInfo_children h' = PayloadInfo_children h @ added \<and>
           shaped h (PayloadInfo_children h) \<and>
           shaped h' (PayloadInfo_children h @ added) \<and>
           get_at (element h') [0, 0] = get_at (element h) [0, 0] \<and>
           get_at (element h') [0, 1] = get_at (element h) [0, 1] \<and>
           get_at (element h') [0, 2] = get_at (element h) [0, 2]"
proof -
  have inv: "shaped h (PayloadInfo_children h)" using assms(1) by (rule reachable_children)
  then have pli: "pay_load_info h = [0, 3]" by (simp add: shaped_def)
  from shaped_append[OF inv assms(2)] obtain xs where
    h': "h' = h\<lparr>p_xml := map_at (add_children xs) [0, 3] (p_xml h)\<rparr>"
    and inv': "shaped h' (PayloadInfo_children h @ xs)" by blast
  have doc: "p_xml h' = map_at (add_children xs) [0, 3] (p_xml h)"
    by (subst h') simp
  have "element h' = map_at (add_children xs) (pay_load_info h) (element h)"
    by (simp add: element_def doc pli)
  moreover have "h' = h\<lparr>p_xml := element h'\<rparr>"
    unfolding element_def doc by (rule h')
  moreover have "PayloadInfo_children h' = PayloadInfo_children h @ xs"
    using inv' by (rule shaped_children)
  moreover have "get_at (element h') [0, 0] = get_at (element h) [0, 0] \<and>
           get_at (element h') [0, 1] = get_at (element h) [0, 1] \<and>
           get_at (element h') [0, 2] = get_at (element h) [0, 2]"
    unfolding element_def doc using inv inv'[unfolded h'] by (rule shaped_siblings)
  ultimately show ?thesis using inv inv' by blast
qed

theorem payload_append_frame_witness:
  "\<exists>h r h'.
     Header_init \<lparr>init_default_conversationid = ''conv-0''\<rparr>
       (Some ''sender'') ''urn:type:1'' (Some ''gw-a'') ''urn:type:2''
       (Some ''gw-b'') ''urn:type:3'' (Some ''recipient'') ''urn:type:4''
       Omitted Omitted Omitted Omitted Omitted = Inr h \<and>
     payload_append h [[''href'' \<mapsto> ''cid:1'', ''mimetype'' \<mapsto> ''text/xml'']] = (r, h') \<and>
     h' = h\<lparr>p_xml := element h'\<rparr> \<and>
     PayloadInfo_children h' = [PartInfo_shape ''cid:1'' ''text/xml'' None] \<and>
     get_at (element h') [0, 0] = get_at (element h) [0, 0] \<and>
     get_at (element h') [0, 1] = get_at (element h) [0, 1] \<and>
     get_at (element h') [0, 2] = get_at (element h) [0, 2]"
proof -
  obtain h where h: "Header_init \<lparr>init_default_conversationid = ''conv-0''\<rparr>
       (Some ''sender'') ''urn:type:1'' (Some ''gw-a'') ''urn:type:2''
       (Some ''gw-b'') ''urn:type:3'' (Some ''recipient'') ''urn:type:4''
       Omitted Omitted Omitted Omitted Omitted = Inr h"
    by (simp add: Header_init_eq concrete)
  have reach: "reachable h" using h by (rule reachable.constructed)
  have empty: "PayloadInfo_children h = []"
    using shaped_init[OF h] by (rule shaped_children)
  let ?ps = "[[''href'' \<mapsto> ''cid:1'', ''mimetype'' \<mapsto> ''text/xml'']]"
  let ?h' = "h\<lparr>p_xml := map_at (add_children (map PartInfo_of ?ps)) (pay_load_info h) (p_xml h)\<rparr>"
  have run: "payload_append h ?ps = (Inr (), ?h')"
    using reach by (rule append_ok) (simp add: concrete)
  have kids: "PayloadInfo_children ?h' = [PartInfo_shape ''cid:1'' ''text/xml'' None]"
    using children_after[OF reach, of "map PartInfo_of ?ps"] empty
    by (simp add: PartInfo_of_def)
  from payload_append_frame[OF reach run] obtain added where
    "?h' = h\<lparr>p_xml := element ?h'\<rparr>"
    "get_at (element ?h') [0, 0] = get_at (element h) [0, 0]"
    "get_at (element ?h') [0, 1] = get_at (element h) [0, 1]"
    "get_at (element ?h') [0, 2] = get_at (element h) [0, 2]"
    by blast
  with h run kids show ?thesis by blast
qed

text \<open>
  Claim C4, as amended. When the list contains a map without \<^verbatim>\<open>mimetype\<close>, the call
  fails. Take the first map that lacks \<^verbatim>\<open>href\<close> or \<^verbatim>\<open>mimetype\<close>: when the maps before
  it have XML-compatible values, and so has its own \<^verbatim>\<open>href\<close> if it has one, the
  failure is a \<^verbatim>\<open>KeyError\<close> raised at that map, for \<^verbatim>\<open>href\<close> if it lacks \<^verbatim>\<open>href\<close> and
  for \<^verbatim>\<open>mimetype\<close> otherwise, and nothing after it is processed. \<^verbatim>\<open>PayloadInfo\<close> then
  holds its previous children, followed by the \<^verbatim>\<open>PartInfo\<close> elements of the maps
  before that one and, when that map has \<^verbatim>\<open>href\<close>, by a \<^verbatim>\<open>PartInfo\<close> with an empty
  \<^verbatim>\<open>PartProperties\<close> for it: the number of children grows by the number of maps before
  that one, plus one when that map has \<^verbatim>\<open>href\<close>.
\<close>

theorem payload_append_missing_key:
  assumes "reachable h" and "\<exists>p\<in>set payloads. ''mimetype'' \<notin> dom p"
  shows "(\<exists>err h'. payload_append h payloads = (Inl err, h')) \<and>
         (\<exists>pre p post.
            payloads = pre @ p # post \<and>
            (\<forall>q\<in>set pre. ''href'' \<in> dom q \<and> ''mimetype'' \<in> dom q) \<and>
            (''href'' \<notin> dom p \<or> ''mimetype'' \<notin> dom p) \<and>
            ((\<forall>q\<in>set pre. payload_ok q) \<and> xml_compatible (p ''href'') \<longrightarrow>
               (\<exists>h'. payload_append h payloads =
                        (Inl (KeyError (if ''href'' \<in> dom p then ''mimetype'' else ''href'')),
                         h') \<and>
                     PayloadInfo_children h' =
                       PayloadInfo_children h @ map PartInfo_of pre @
                         (if ''href'' \<in> dom p then [PartInfo_stub (the (p ''href''))]
                          else []) \<and>
                     length (PayloadInfo_children h') =
                       length (PayloadInfo_children h) + length pre +
                         (if ''href'' \<in> dom p then 1 else 0))))"
proof -
  let ?ok = "\<lambda>q::dict. q ''href'' \<noteq> None \<and> q ''mimetype'' \<noteq> None"
  from assms(2) have some: "\<exists>p\<in>set payloads. \<not> ?ok p" by (auto simp: dom_def)
  then have "\<exists>p\<in>set payloads. p ''href'' = None \<or> p ''mimetype'' = None" by simp
  with assms(1) have fails: "\<exists>err h'. payload_append h payloads = (Inl err, h')"
    by (rule append_incomplete_fails)
  from some obtain pre p post where split: "payloads = pre @ p # post"
    and bad: "\<not> ?ok p" and good: "\<forall>q\<in>set pre. \<not> \<not> ?ok q"
    by (auto dest!: split_list_first_prop)
  from good have pre_dom: "\<forall>q\<in>set pre. ''href'' \<in> dom q \<and> ''mimetype'' \<in> dom q"
    by (simp add: dom_def)
  from bad have bad_dom: "''href'' \<notin> dom p \<or> ''mimetype'' \<notin> dom p"
    by (auto simp: dom_def)
  have "(\<forall>q\<in>set pre. payload_ok q) \<and> xml_compatible (p ''href'') \<longrightarrow>
               (\<exists>h'. payload_append h payloads =
                        (Inl (KeyError (if ''href'' \<in> dom p then ''mimetype'' else ''href'')),
                         h') \<and>
                     PayloadInfo_children h' =
                       PayloadInfo_children h @ map PartInfo_of pre @
                         (if ''href'' \<in> dom p then [PartInfo_stub (the (p ''href''))]
                          else []) \<and>
                     length (PayloadInfo_children h') =
                       length (PayloadInfo_children h) + length pre +
                         (if ''href'' \<in> dom p then 1 else 0))"
  proof
    assume "(\<forall>q\<in>set pre. payload_ok q) \<and> xml_compatible (p ''href'')"
    then have pre: "\<forall>q\<in>set pre. payload_ok q" and okh: "xml_compatible (p ''href'')"
      by simp_all
    show "\<exists>h'. payload_append h payloads =
                        (Inl (KeyError (if ''href'' \<in> dom p then ''mimetype'' else ''href'')),
                         h') \<and>
                     PayloadInfo_children h' =
                       PayloadInfo_children h @ map PartInfo_of pre @
                         (if ''href'' \<in> dom p then [PartInfo_stub (the (p ''href''))]
                          else []) \<and>
                     length (PayloadInfo_children h') =
                       length (PayloadInfo_children h) + length pre +
                         (if ''href'' \<in> dom p then 1 else 0)"
    proof (cases "p ''href''")
      case None
      let ?h' = "h\<lparr>p_xml := map_at (add_children (map PartInfo_of pre)) (pay_load_info h) (p_xml h)\<rparr>"
      have "payload_append h (pre @ p # post) = (Inl (KeyError ''href''), ?h')"
        using assms(1) pre None by (rule append_stops_href)
      moreover have "PayloadInfo_children ?h' = PayloadInfo_children h @ map PartInfo_of pre"
        using assms(1) by (rule children_after)
      moreover have "''href'' \<notin> dom p" using None by (simp add: dom_def)
      ultimately show ?thesis using split by (intro exI[of _ ?h']) simp
    next
      case (Some x)
      with bad have nomime: "p ''mimetype'' = None" by simp
      from okh Some have okx: "is_valid_xml_utf8 x" by (simp add: xml_compatible_simps)
      let ?h' = "h\<lparr>p_xml := map_at (add_children (map PartInfo_of pre @ [PartInfo_stub x]))
                            (pay_load_info h) (p_xml h)\<rparr>"
      have "payload_append h (pre @ p # post) = (Inl (KeyError ''mimetype''), ?h')"
        using assms(1) pre Some okx nomime by (rule append_stops_mimetype)
      moreover have "PayloadInfo_children ?h' =
          PayloadInfo_children h @ map PartInfo_of pre @ [PartInfo_stub x]"
        using assms(1) by (rule children_after)
      moreover have "''href'' \<in> dom p" using Some by (simp add: dom_def)
      ultimately show ?thesis using split Some by (intro exI[of _ ?h']) simp
    qed
  qed
  note main = this
  have "\<exists>pre p post.
            payloads = pre @ p # post \<and>
            (\<forall>q\<in>set pre. ''href'' \<in> dom q \<and> ''mimetype'' \<in> dom q) \<and>
            (''href'' \<notin> dom p \<or> ''mimetype'' \<notin> dom p) \<and>
            ((\<forall>q\<in>set pre. payload_ok q) \<and> xml_compatible (p ''href'') \<longrightarrow>
               (\<exists>h'. payload_append h payloads =
                        (Inl (KeyError (if ''href'' \<in> dom p then ''mimetype'' else ''href'')),
                         h') \<and>
                     PayloadInfo_children h' =
                       PayloadInfo_children h @ map PartInfo_of pre @
                         (if ''href'' \<in> dom p then [PartInfo_stub (the (p ''href''))]
                          else []) \<and>
                     length (PayloadInfo_children h') =
                       length (PayloadInfo_children h) + length pre +
                         (if ''href'' \<in> dom p then 1 else 0)))"
    by (rule exI[where x = pre], rule exI[where x = p], rule exI[where x = post])
      (rule conjI[OF split conjI[OF pre_dom conjI[OF bad_dom main]]])
  with fails show ?thesis by (rule conjI)
qed

theorem payload_append_missing_key_witness:
  "\<exists>h h'.
     Header_init \<lparr>init_default_conversationid = ''conv-0''\<rparr>
       (Some ''sender'') ''urn:type:1'' (Some ''gw-a'') ''urn:type:2''
       (Some ''gw-b'') ''urn:type:3'' (Some ''recipient'') ''urn:type:4''
       Omitted Omitted Omitted Omitted Omitted = Inr h \<and>
     payload_append h
       [[''href'' \<mapsto> ''cid:1'', ''mimetype'' \<mapsto> ''text/xml''], [''href'' \<mapsto> ''cid:2'']] =
       (Inl (KeyError ''mimetype''), h') \<and>
     PayloadInfo_children h' =
       [PartInfo_shape ''cid:1'' ''text/xml'' None, PartInfo_stub ''cid:2'']"
proof -
  obtain h where h: "Header_init \<lparr>init_default_conversationid = ''conv-0''\<rparr>
       (Some ''sender'') ''urn:type:1'' (Some ''gw-a'') ''urn:type:2''
       (Some ''gw-b'') ''urn:type:3'' (Some ''recipient'') ''urn:type:4''
       Omitted Omitted Omitted Omitted Omitted = Inr h"
    by (simp add: Header_init_eq concrete)
  have reach: "reachable h" using h by (rule reachable.constructed)
  have empty: "PayloadInfo_children h = []"
    using shaped_init[OF h] by (rule shaped_children)
  let ?a = "[''href'' \<mapsto> ''cid:1'', ''mimetype'' \<mapsto> ''text/xml'']"
  let ?b = "[''href'' \<mapsto> ''cid:2'']"
  have "\<exists>p\<in>set [?a, ?b]. ''mimetype'' \<notin> dom p" by simp
  note second = payload_append_missing_key[OF reach this, THEN conjunct2]
  from second obtain pre p post where all:
    "[?a, ?b] = pre @ p # post \<and>
     (\<forall>q\<in>set pre. ''href'' \<in> dom q \<and> ''mimetype'' \<in> dom q) \<and>
     (''href'' \<notin> dom p \<or> ''mimetype'' \<notin> dom p) \<and>
     ((\<forall>q\<in>set pre. payload_ok q) \<and> xml_compatible (p ''href'') \<longrightarrow>
      (\<exists>h'. payload_append h [?a, ?b] =
               (Inl (KeyError (if ''href'' \<in> dom p then ''mimetype'' else ''href'')), h') \<and>
             PayloadInfo_children h' =
               PayloadInfo_children h @ map PartInfo_of pre @
                 (if ''href'' \<in> dom p then [PartInfo_stub (the (p ''href''))] else []) \<and>
             length (PayloadInfo_children h') =
               length (PayloadInfo_children h) + length pre +
                 (if ''href'' \<in> dom p then 1 else 0)))"
    by (elim exE)
  note split = all[THEN conjunct1]
  note bad = all[THEN conjunct2, THEN conjunct2, THEN conjunct1]
  note run = all[THEN conjunct2, THEN conjunct2, THEN conjunct2]
  from split have "(pre = [] \<and> p = ?a) \<or> (pre = [?a] \<and> p = ?b)"
    by (auto simp: Cons_eq_append_conv)
  moreover have "''href'' \<in> dom ?a \<and> ''mimetype'' \<in> dom ?a" by simp
  ultimately have which: "pre = [?a] \<and> p = ?b" using bad by blast
  have "(\<forall>q\<in>set pre. payload_ok q) \<and> xml_compatible (p ''href'')"
    using which by (simp add: concrete)
  from run[THEN mp, OF this] obtain h' where
    "payload_append h [?a, ?b] =
       (Inl (KeyError (if ''href'' \<in> dom p then ''mimetype'' else ''href'')), h')"
    "PayloadInfo_children h' =
       PayloadInfo_children h @ map PartInfo_of pre @
         (if ''href'' \<in> dom p then [PartInfo_stub (the (p ''href''))] else [])"
    by (elim exE conjE)
  with which empty have
    "payload_append h [?a, ?b] = (Inl (KeyError ''mimetype''), h') \<and>
     PayloadInfo_children h' =
       [PartInfo_shape ''cid:1'' ''text/xml'' None, PartInfo_stub ''cid:2'']"
    by (simp add: PartInfo_of_def)
  with h show ?thesis by blast
qed

text \<open>
  The claim as stated asks that the failed call leave the number of children unchanged.
  On a fresh object, one payload with \<^verbatim>\<open>href\<close> and without \<^verbatim>\<open>mimetype\<close> raises
  \<^verbatim>\<open>KeyError\<close> and leaves one child where there was none.
\<close>


theorem payload_append_missing_mimetype_counterexample:
  "fst (payload_append
          (projr (Header_init \<lparr>init_default_conversationid = ''conv-0''\<rparr>
             (Some ''sender'') ''urn:type:1'' (Some ''gw-a'') ''urn:type:2''
             (Some ''gw-b'') ''urn:type:3'' (Some ''recipient'') ''urn:type:4''
             Omitted Omitted Omitted Omitted Omitted))
          [[''href'' \<mapsto> ''cid:1'']]) = Inl (KeyError ''mimetype'') \<and>
   length (PayloadInfo_children
     (projr (Header_init \<lparr>init_default_conversationid = ''conv-0''\<rparr>
        (Some ''sender'') ''urn:type:1'' (Some ''gw-a'') ''urn:type:2''
        (Some ''gw-b'') ''urn:type:3'' (Some ''recipient'') ''urn:type:4''
        Omitted Omitted Omitted Omitted Omitted))) = 0 \<and>
   length (PayloadInfo_children
     (snd (payload_append
          (projr (Header_init \<lparr>init_default_conversationid = ''conv-0''\<rparr>
             (Some ''sender'') ''urn:type:1'' (Some ''gw-a'') ''urn:type:2''
             (Some ''gw-b'') ''urn:type:3'' (Some ''recipient'') ''urn:type:4''
             Omitted Omitted Omitted Omitted Omitted))
          [[''href'' \<mapsto> ''cid:1'']]))) = 1"
proof -
  obtain h where h: "Header_init \<lparr>init_default_conversationid = ''conv-0''\<rparr>
       (Some ''sender'') ''urn:type:1'' (Some ''gw-a'') ''urn:type:2''
       (Some ''gw-b'') ''urn:type:3'' (Some ''recipient'') ''urn:type:4''
       Omitted Omitted Omitted Omitted Omitted = Inr h"
    by (simp add: Header_init_eq concrete)
  have reach: "reachable h" using h by (rule reachable.constructed)
  have empty: "PayloadInfo_children h = []"
    using shaped_init[OF h] by (rule shaped_children)
  let ?p = "[''href'' \<mapsto> ''cid:1'']"
  have "payload_append h ([] @ ?p # []) =
      (Inl (KeyError ''mimetype''),
       h\<lparr>p_xml := map_at (add_children (map PartInfo_of [] @ [PartInfo_stub ''cid:1'']))
                     (pay_load_info h) (p_xml h)\<rparr>)"
    using reach by (rule append_stops_mimetype) (simp_all add: xmlIsChar_ch_def)
  moreover have "PayloadInfo_children
      (h\<lparr>p_xml := map_at (add_children (map PartInfo_of [] @ [PartInfo_stub ''cid:1'']))
                     (pay_load_info h) (p_xml h)\<rparr>) =
      PayloadInfo_children h @ map PartInfo_of [] @ [PartInfo_stub ''cid:1'']"
    using reach by (rule children_after)
  ultimately show ?thesis using empty by (simp add: h)
qed

text \<open>
  Claim C10. When a payload of the list lacks \<^verbatim>\<open>href\<close>, the call raises and nothing
  is created for that payload or for a later one: \<^verbatim>\<open>PayloadInfo\<close> keeps its previous
  children and gains at most one element for each earlier payload. When the earlier
  payloads are complete and their values XML-compatible, the error is the
  \<^verbatim>\<open>KeyError\<close> for \<^verbatim>\<open>href\<close> and the elements gained are exactly the \<^verbatim>\<open>PartInfo\<close>
  elements of the earlier payloads, so the failed call leaves more children than there
  were.
\<close>

theorem payload_append_missing_href:
  assumes "reachable h" and "''href'' \<notin> dom p"
  shows "\<exists>err added h'.
           payload_append h (pre @ p # post) = (Inl err, h') \<and>
           PayloadInfo_children h' = PayloadInfo_children h @ added \<and>
           length added \<le> length pre \<and>
           ((\<forall>q\<in>set pre. payload_ok q) \<longrightarrow>
              err = KeyError ''href'' \<and> added = map PartInfo_of pre \<and>
              length (PayloadInfo_children h') = length (PayloadInfo_children h) + length pre)"
proof -
  have nohref: "p ''href'' = None" using assms(2) by (simp add: dom_def)
  from append_before_no_href[where p = p and pre = pre and post = post, OF assms(1) nohref]
  obtain err xs where
    run: "payload_append h (pre @ p # post) =
      (Inl err, h\<lparr>p_xml := map_at (add_children xs) (pay_load_info h) (p_xml h)\<rparr>)"
    and len: "length xs \<le> length pre"
    by blast
  let ?h' = "h\<lparr>p_xml := map_at (add_children xs) (pay_load_info h) (p_xml h)\<rparr>"
  have kids: "PayloadInfo_children ?h' = PayloadInfo_children h @ xs"
    using assms(1) by (rule children_after)
  have exact: "(\<forall>q\<in>set pre. payload_ok q) \<longrightarrow>
      err = KeyError ''href'' \<and> xs = map PartInfo_of pre \<and>
      length (PayloadInfo_children ?h') = length (PayloadInfo_children h) + length pre"
  proof
    assume pre: "\<forall>q\<in>set pre. payload_ok q"
    let ?g = "h\<lparr>p_xml := map_at (add_children (map PartInfo_of pre)) (pay_load_info h) (p_xml h)\<rparr>"
    have "payload_append h (pre @ p # post) = (Inl (KeyError ''href''), ?g)"
      using assms(1) pre nohref by (rule append_stops_href)
    with run have "(Inl err, ?h') = (Inl (KeyError ''href'') :: error + unit, ?g)"
      by (simp only:)
    then have err: "err = KeyError ''href''" and same: "?h' = ?g"
      by (simp_all only: prod.inject sum.inject)
    have "PayloadInfo_children ?g = PayloadInfo_children h @ map PartInfo_of pre"
      using assms(1) by (rule children_after)
    with kids same have "xs = map PartInfo_of pre" by simp
    with err kids show "err = KeyError ''href'' \<and> xs = map PartInfo_of pre \<and>
      length (PayloadInfo_children ?h') = length (PayloadInfo_children h) + length pre"
      by simp
  qed
  show ?thesis
    by (rule exI[where x = err], rule exI[where x = xs], rule exI[where x = ?h'])
      (rule conjI[OF run conjI[OF kids conjI[OF len exact]]])
qed

theorem payload_append_missing_href_witness:
  "\<exists>h h'.
     Header_init \<lparr>init_default_conversationid = ''conv-0''\<rparr>
       (Some ''sender'') ''urn:type:1'' (Some ''gw-a'') ''urn:type:2''
       (Some ''gw-b'') ''urn:type:3'' (Some ''recipient'') ''urn:type:4''
       Omitted Omitted Omitted Omitted Omitted = Inr h \<and>
     payload_append h
       [[''href'' \<mapsto> ''cid:1'', ''mimetype'' \<mapsto> ''text/xml''],
        [''mimetype'' \<mapsto> ''text/plain''],
        [''href'' \<mapsto> ''cid:3'', ''mimetype'' \<mapsto> ''text/xml'']] =
       (Inl (KeyError ''href''), h') \<and>
     PayloadInfo_children h = [] \<and>
     PayloadInfo_children h' = [PartInfo_shape ''cid:1'' ''text/xml'' None]"
proof -
  obtain h where h: "Header_init \<lparr>init_default_conversationid = ''conv-0''\<rparr>
       (Some ''sender'') ''urn:type:1'' (Some ''gw-a'') ''urn:type:2''
       (Some ''gw-b'') ''urn:type:3'' (Some ''recipient'') ''urn:type:4''
       Omitted Omitted Omitted Omitted Omitted = Inr h"
    by (simp add: Header_init_eq concrete)
  have reach: "reachable h" using h by (rule reachable.constructed)
  have empty: "PayloadInfo_children h = []"
    using shaped_init[OF h] by (rule shaped_children)
  let ?a = "[''href'' \<mapsto> ''cid:1'', ''mimetype'' \<mapsto> ''text/xml'']"
  let ?b = "[''mimetype'' \<mapsto> ''text/plain'']"
  let ?c = "[''href'' \<mapsto> ''cid:3'', ''mimetype'' \<mapsto> ''text/xml'']"
  have ok: "\<forall>q\<in>set [?a]. payload_ok q" by (simp add: concrete)
  have "''href'' \<notin> dom ?b" by simp
  from payload_append_missing_href[where p = ?b and pre = "[?a]" and post = "[?c]", OF reach this]
  obtain err added h' where all:
    "payload_append h ([?a] @ ?b # [?c]) = (Inl err, h') \<and>
     PayloadInfo_children h' = PayloadInfo_children h @ added \<and>
     length added \<le> length [?a] \<and>
     ((\<forall>q\<in>set [?a]. payload_ok q) \<longrightarrow>
        err = KeyError ''href'' \<and> added = map PartInfo_of [?a] \<and>
        length (PayloadInfo_children h') = length (PayloadInfo_children h) + length [?a])"
    by (elim exE)
  note exact = all[THEN conjunct2, THEN conjunct2, THEN conjunct2, THEN mp, OF ok]
  have "err = KeyError ''href''" "added = map PartInfo_of [?a]"
    using exact[THEN conjunct1] exact[THEN conjunct2, THEN conjunct1] by (simp_all only:)
  with all[THEN conjunct1] all[THEN conjunct2, THEN conjunct1] have
    "payload_append h ([?a] @ ?b # [?c]) = (Inl (KeyError ''href''), h')"
    "PayloadInfo_children h' = PayloadInfo_children h @ map PartInfo_of [?a]"
    by (simp_all only:)
  with h empty show ?thesis by (simp add: PartInfo_of_def)
qed

end
